theory Spec2Isabelle
  imports Complex_Main "HOL-Library.Sublist" "HOL-Library.Log_Nat"
begin

section \<open>Arrays and boolean-mask indexing\<close>

text \<open>
  The utilities of \<^verbatim>\<open>neurodsp/spectral/utils.py\<close> work on numpy arrays. A 1-D array is a
  list. A 2-D array is the list of its rows together with the length of the second axis, so
  that an array of shape \<open>(0, n)\<close> keeps its \<open>n\<close>; the length of the first axis is the
  number of rows. Coordinate values (frequencies, times) and range bounds are taken from any
  type with a comparison \<open>\<le>\<close>, which stands for numpy's elementwise comparison of an array
  with a scalar: the exact order when both have one dtype, a comparison after promotion to
  float64 when an integer meets a float (type \<open>npval\<close> below).

  Indexing an axis with a boolean mask whose length differs from the length of that axis
  raises \<^verbatim>\<open>IndexError\<close>, except that a mask of length zero is accepted on an axis of any
  length and selects nothing; \<^verbatim>\<open>np.pad\<close> with a negative pad width raises \<^verbatim>\<open>ValueError\<close>.
\<close>

datatype py_error = IndexError | ValueError

record 'a array2 =
  ncols :: nat
  rows :: "'a list list"

definition nrows :: "'a array2 \<Rightarrow> nat" where
  "nrows a = length (rows a)"

definition wf_array2 :: "'a array2 \<Rightarrow> bool" where
  "wf_array2 a = list_all (\<lambda>r. length r = ncols a) (rows a)"

text \<open>\<^verbatim>\<open>power_spectra\<close> of \<^verbatim>\<open>trim_spectrum\<close> is either 1-D or 2-D (\<^verbatim>\<open>ndim == 1\<close> or not).\<close>

datatype 'a ndarray = Arr1 "'a list" | Arr2 "'a array2"

text \<open>\<^verbatim>\<open>np.logical_and\<close> on two boolean arrays of the same shape.\<close>

definition logical_and :: "bool list \<Rightarrow> bool list \<Rightarrow> bool list" where
  "logical_and xs ys = map2 (\<and>) xs ys"

text \<open>
  The mask both trimmers build:
  \<^verbatim>\<open>np.logical_and(freqs >= f_range[0], freqs <= f_range[1])\<close>.
\<close>

definition range_mask :: "'a::ord list \<Rightarrow> 'a \<Rightarrow> 'a \<Rightarrow> bool list" where
  "range_mask c low high = logical_and (map (\<lambda>x. x \<ge> low) c) (map (\<lambda>x. x \<le> high) c)"

text \<open>The elements of \<open>xs\<close> at the positions where the mask is true, in order.\<close>

definition select :: "bool list \<Rightarrow> 'a list \<Rightarrow> 'a list" where
  "select m xs = map snd (filter fst (zip m xs))"

text \<open>\<^verbatim>\<open>xs[mask]\<close> on a 1-D array.\<close>

definition bool_index :: "bool list \<Rightarrow> 'a list \<Rightarrow> py_error + 'a list" where
  "bool_index m xs =
     (if length m = length xs \<or> m = [] then Inr (select m xs) else Inl IndexError)"

text \<open>\<^verbatim>\<open>a[mask, :]\<close> on a 2-D array: the mask runs over the first axis.\<close>

definition bool_index_rows :: "bool list \<Rightarrow> 'a array2 \<Rightarrow> py_error + 'a array2" where
  "bool_index_rows m a =
     (if length m = nrows a \<or> m = []
      then Inr \<lparr>ncols = ncols a, rows = select m (rows a)\<rparr>
      else Inl IndexError)"

text \<open>\<^verbatim>\<open>a[:, mask]\<close> on a 2-D array: the mask runs over the second axis.\<close>

definition bool_index_cols :: "bool list \<Rightarrow> 'a array2 \<Rightarrow> py_error + 'a array2" where
  "bool_index_cols m a =
     (if length m = ncols a \<or> m = []
      then Inr \<lparr>ncols = length (filter id m), rows = map (select m) (rows a)\<rparr>
      else Inl IndexError)"

section \<open>Trimming a power spectrum\<close>

text \<open>
  \<^verbatim>\<open>trim_spectrum(freqs, power_spectra, f_range)\<close>, with \<^verbatim>\<open>f_range\<close> the pair
  \<open>(f_range[0], f_range[1])\<close>.
\<close>

definition trim_spectrum ::
  "'a::ord list \<Rightarrow> 'b ndarray \<Rightarrow> 'a \<times> 'a \<Rightarrow> py_error + ('a list \<times> 'b ndarray)" where
  "trim_spectrum freqs power_spectra f_range =
     (let f_mask = range_mask freqs (fst f_range) (snd f_range) in
      case bool_index f_mask freqs of
        Inl e \<Rightarrow> Inl e
      | Inr freqs_ext \<Rightarrow>
          (case power_spectra of
             Arr1 p \<Rightarrow>
               (case bool_index f_mask p of
                  Inl e \<Rightarrow> Inl e
                | Inr p_ext \<Rightarrow> Inr (freqs_ext, Arr1 p_ext))
           | Arr2 a \<Rightarrow>
               (case bool_index_cols f_mask a of
                  Inl e \<Rightarrow> Inl e
                | Inr a_ext \<Rightarrow> Inr (freqs_ext, Arr2 a_ext))))"

section \<open>Trimming a spectrogram\<close>

text \<open>
  \<^verbatim>\<open>trim_spectrogram(freqs, times, spg, f_range=None, t_range=None)\<close>: the frequency axis
  (axis 0 of \<^verbatim>\<open>spg\<close>) is restricted first, the time axis (axis 1) second.
  The parameter \<^verbatim>\<open>times\<close> is written \<open>times_arr\<close>.
\<close>

definition trim_spectrogram ::
  "'a::ord list \<Rightarrow> 'b::ord list \<Rightarrow> 'c array2 \<Rightarrow> ('a \<times> 'a) option \<Rightarrow>
     ('b \<times> 'b) option \<Rightarrow> py_error + ('a list \<times> 'b list \<times> 'c array2)" where
  "trim_spectrogram freqs times_arr spg f_range t_range =
     (case (case f_range of
              Some fr \<Rightarrow>
                (let f_mask = range_mask freqs (fst fr) (snd fr) in
                 case bool_index f_mask freqs of
                   Inl e \<Rightarrow> Inl e
                 | Inr freqs_ext \<Rightarrow>
                     (case bool_index_rows f_mask spg of
                        Inl e \<Rightarrow> Inl e
                      | Inr spg_ext \<Rightarrow> Inr (freqs_ext, spg_ext)))
            | None \<Rightarrow> Inr (freqs, spg)) of
        Inl e \<Rightarrow> Inl e
      | Inr (freqs_ext, spg_ext) \<Rightarrow>
          (case t_range of
             Some tr \<Rightarrow>
               (let times_mask = range_mask times_arr (fst tr) (snd tr) in
                case bool_index times_mask times_arr of
                  Inl e \<Rightarrow> Inl e
                | Inr times_ext \<Rightarrow>
                    (case bool_index_cols times_mask spg_ext of
                       Inl e \<Rightarrow> Inl e
                     | Inr spg_ext2 \<Rightarrow> Inr (freqs_ext, times_ext, spg_ext2)))
           | None \<Rightarrow> Inr (freqs_ext, times_arr, spg_ext)))"

text \<open>The inputs the documentation asks for: the data array is aligned with its axes.\<close>

definition spectra_aligned :: "'a list \<Rightarrow> 'b ndarray \<Rightarrow> bool" where
  "spectra_aligned freqs power_spectra =
     (case power_spectra of
        Arr1 p \<Rightarrow> length p = length freqs
      | Arr2 a \<Rightarrow> ncols a = length freqs \<and> wf_array2 a)"

definition spg_aligned :: "'a list \<Rightarrow> 'b list \<Rightarrow> 'c array2 \<Rightarrow> bool" where
  "spg_aligned freqs times_arr spg =
     (nrows spg = length freqs \<and> ncols spg = length times_arr \<and> wf_array2 spg)"

text \<open>The range predicate of the mask: \<open>x >= low\<close> and \<open>x <= high\<close> as the code compares.\<close>

definition in_range :: "'a::ord \<Rightarrow> 'a \<Rightarrow> 'a \<Rightarrow> bool" where
  "in_range low high x = (low \<le> x \<and> x \<le> high)"

text \<open>
  Feeding the three outputs of one call of \<^verbatim>\<open>trim_spectrum\<close> or \<^verbatim>\<open>trim_spectrogram\<close> to a
  second call; an error of the first call is what the caller sees.
\<close>

definition trim_spectrum_again ::
  "py_error + ('a::ord list \<times> 'b ndarray) \<Rightarrow> 'a \<times> 'a \<Rightarrow>
     py_error + ('a list \<times> 'b ndarray)" where
  "trim_spectrum_again r f_range =
     (case r of Inl e \<Rightarrow> Inl e | Inr (freqs, power_spectra) \<Rightarrow> trim_spectrum freqs power_spectra f_range)"

definition trim_spectrogram_again ::
  "py_error + ('a::ord list \<times> 'b::ord list \<times> 'c array2) \<Rightarrow> ('a \<times> 'a) option \<Rightarrow>
     ('b \<times> 'b) option \<Rightarrow> py_error + ('a list \<times> 'b list \<times> 'c array2)" where
  "trim_spectrogram_again r f_range t_range =
     (case r of
        Inl e \<Rightarrow> Inl e
      | Inr (freqs, times_arr, spg) \<Rightarrow> trim_spectrogram freqs times_arr spg f_range t_range)"

section \<open>Positive frequencies of an FFT\<close>

text \<open>
  A Python slice \<^verbatim>\<open>xs[start:stop]\<close> with non-negative bounds: both bounds are clamped to
  the length, and the slice is empty when \<open>stop \<le> start\<close>. It never raises.
\<close>

definition py_slice :: "nat \<Rightarrow> nat \<Rightarrow> 'a list \<Rightarrow> 'a list" where
  "py_slice start stop xs = take (stop - start) (drop start xs)"

text \<open>
  \<^verbatim>\<open>get_positive_fft_outputs(freqs, powers=None, drop_zero=False)\<close> returns one array, or
  a pair of arrays when \<^verbatim>\<open>powers\<close> is given.
\<close>

datatype ('a, 'b) fft_outputs =
  Freqs (out_freqs: "'a list")
| FreqsPowers (out_freqs: "'a list") (out_powers: "'b list")

definition get_positive_fft_outputs ::
  "'a list \<Rightarrow> 'b list option \<Rightarrow> bool \<Rightarrow> ('a, 'b) fft_outputs" where
  "get_positive_fft_outputs freqs powers drop_zero =
     (let start_ind = (if drop_zero then 1 else 0);
          end_ind = nat \<lceil>real (length freqs) / 2\<rceil>
      in case powers of
           Some p \<Rightarrow> FreqsPowers (py_slice start_ind end_ind freqs) (py_slice start_ind end_ind p)
         | None \<Rightarrow> Freqs (py_slice start_ind end_ind freqs))"

section \<open>Padding a signal\<close>

text \<open>
  \<^verbatim>\<open>np.pad(sig, (left, right), mode='constant', constant_values=v)\<close> on a 1-D array.
\<close>

definition np_pad :: "'a list \<Rightarrow> int \<Rightarrow> int \<Rightarrow> 'a \<Rightarrow> py_error + 'a list" where
  "np_pad xs left right v =
     (if left < 0 \<or> right < 0 then Inl ValueError
      else Inr (replicate (nat left) v @ xs @ replicate (nat right) v))"

text \<open>
  \<^verbatim>\<open>pad_signal(sig, length, fast_len=False)\<close>. \<^verbatim>\<open>scipy.fft.next_fast_len\<close> is not part of
  the repository: it is the first parameter. The parameter \<^verbatim>\<open>length\<close> is written \<open>len\<close>;
  it is a Python integer, so it may be negative.
\<close>

definition pad_signal ::
  "(int \<Rightarrow> int) \<Rightarrow> 'a::zero list \<Rightarrow> int \<Rightarrow> bool \<Rightarrow> py_error + 'a list" where
  "pad_signal next_fast_len sig len fast_len =
     (if len > int (length sig) then
        (let len2 = (if fast_len then next_fast_len len else len);
             npad_total = len2 - int (length sig);
             npad_left = \<lfloor>real_of_int npad_total / 2\<rfloor>;
             npad_right = \<lceil>real_of_int npad_total / 2\<rceil>
         in np_pad sig npad_left npad_right 0)
      else Inr sig)"

section \<open>Integers and floats under numpy's comparison\<close>

text \<open>
  A coordinate or bound is an integer (an int64 element, a Python integer) or a float64,
  given by the real number it holds. numpy compares two integers exactly and two floats
  exactly; an integer and a float are compared in float64, the integer first being converted
  to the nearest float64, ties going to the even significand. \<open>float64_of_int\<close> is that
  conversion on the int64 range: 53 significant bits are kept.
\<close>

datatype npval = IntVal int | FloatVal real

definition float64_of_int :: "int \<Rightarrow> int" where
  "float64_of_int n =
     (let m = nat \<bar>n\<bar>;
          k = floorlog 2 m - 53;
          q = m div 2 ^ k;
          r = m mod 2 ^ k;
          q2 = (if 2 * r > 2 ^ k \<or> (2 * r = 2 ^ k \<and> odd q) then q + 1 else q)
      in sgn n * int (q2 * 2 ^ k))"

fun to_float64 :: "npval \<Rightarrow> real" where
  "to_float64 (IntVal n) = real_of_int (float64_of_int n)"
| "to_float64 (FloatVal x) = x"

text \<open>The number a value holds, before any conversion.\<close>

fun np_value :: "npval \<Rightarrow> real" where
  "np_value (IntVal n) = real_of_int n"
| "np_value (FloatVal x) = x"

instantiation npval :: ord
begin

definition less_eq_npval :: "npval \<Rightarrow> npval \<Rightarrow> bool" where
  "less_eq_npval x y =
     (case (x, y) of
        (IntVal a, IntVal b) \<Rightarrow> a \<le> b
      | _ \<Rightarrow> to_float64 x \<le> to_float64 y)"

definition less_npval :: "npval \<Rightarrow> npval \<Rightarrow> bool" where
  "less_npval x y =
     (case (x, y) of
        (IntVal a, IntVal b) \<Rightarrow> a < b
      | _ \<Rightarrow> to_float64 x < to_float64 y)"

instance ..

end

text \<open>
  The comparisons of the coordinates \<open>cs\<close> with the bounds are exact with respect to a
  valuation \<open>v\<close>: each gives what comparing the values gives. With one dtype for
  coordinates and bounds, \<open>v\<close> is the identity.
\<close>

definition compared_exactly ::
  "('a::ord \<Rightarrow> 'r::linorder) \<Rightarrow> 'a list \<Rightarrow> 'a \<Rightarrow> 'a \<Rightarrow> bool" where
  "compared_exactly v cs low high =
     list_all (\<lambda>c. (low \<le> c) = (v low \<le> v c) \<and> (c \<le> high) = (v c \<le> v high)) cs"

section \<open>Basic facts about masks\<close>

lemma length_range_mask: "length (range_mask c low high) = length c"
  by (simp add: range_mask_def logical_and_def)

lemma range_mask_map: "range_mask c low high = map (in_range low high) c"
  by (induction c) (simp_all add: range_mask_def logical_and_def in_range_def)

lemma select_map_self: "select (map P xs) xs = filter P xs"
  by (induction xs) (simp_all add: select_def)

lemma select_range_mask: "select (range_mask c low high) c = filter (in_range low high) c"
  by (simp add: range_mask_map select_map_self)

lemma bool_index_range_mask:
  "bool_index (range_mask c low high) c = Inr (filter (in_range low high) c)"
  by (simp add: bool_index_def length_range_mask select_range_mask)

lemma length_select:
  "length m = length xs \<Longrightarrow> length (select m xs) = length (filter id m)"
proof (induction m arbitrary: xs)
  case Nil
  then show ?case by (simp add: select_def)
next
  case (Cons b m)
  then obtain y ys where "xs = y # ys" by (cases xs) auto
  with Cons show ?case by (simp add: select_def)
qed

lemma filter_id_range_mask:
  "length (filter id (range_mask c low high)) = length (filter (in_range low high) c)"
  by (induction c) (simp_all add: range_mask_map)

section \<open>The trimmers on aligned inputs\<close>

lemma select_all_true:
  "length xs = length c \<Longrightarrow> \<forall>x\<in>set c. P x \<Longrightarrow> select (map P c) xs = xs"
proof (induction c arbitrary: xs)
  case Nil
  then show ?case by (simp add: select_def)
next
  case (Cons a c)
  then obtain y ys where "xs = y # ys" by (cases xs) auto
  with Cons show ?case by (simp add: select_def)
qed

lemma select_all_false:
  "\<forall>x\<in>set c. \<not> P x \<Longrightarrow> select (map P c) xs = []"
proof (induction c arbitrary: xs)
  case Nil
  then show ?case by (simp add: select_def)
next
  case (Cons a c)
  then show ?case by (cases xs) (simp_all add: select_def)
qed

lemma length_select_range_mask:
  "length xs = length c \<Longrightarrow>
     length (select (range_mask c low high) xs) = length (filter (in_range low high) c)"
  by (simp add: length_select length_range_mask filter_id_range_mask)

lemma trim_spectrum_Arr1:
  "length p = length freqs \<Longrightarrow>
     trim_spectrum freqs (Arr1 p) (lo, hi) =
       Inr (filter (in_range lo hi) freqs, Arr1 (select (range_mask freqs lo hi) p))"
  by (simp add: trim_spectrum_def Let_def bool_index_def length_range_mask select_range_mask)

lemma trim_spectrum_Arr2:
  "ncols a = length freqs \<Longrightarrow>
     trim_spectrum freqs (Arr2 a) (lo, hi) =
       Inr (filter (in_range lo hi) freqs,
            Arr2 \<lparr>ncols = length (filter (in_range lo hi) freqs),
                  rows = map (select (range_mask freqs lo hi)) (rows a)\<rparr>)"
  by (simp add: trim_spectrum_def Let_def bool_index_def bool_index_cols_def length_range_mask
      select_range_mask filter_id_range_mask)

lemma trim_spectrogram_aligned:
  "nrows spg = length freqs \<Longrightarrow> ncols spg = length times_arr \<Longrightarrow>
     trim_spectrogram freqs times_arr spg (Some (lo, hi)) (Some (tlo, thi)) =
       Inr (filter (in_range lo hi) freqs, filter (in_range tlo thi) times_arr,
            \<lparr>ncols = length (filter (in_range tlo thi) times_arr),
             rows = map (select (range_mask times_arr tlo thi))
                      (select (range_mask freqs lo hi) (rows spg))\<rparr>)"
  by (simp add: trim_spectrogram_def Let_def bool_index_def bool_index_cols_def
      bool_index_rows_def length_range_mask select_range_mask filter_id_range_mask)

lemma trim_spectrogram_freq_only:
  "nrows spg = length freqs \<Longrightarrow>
     trim_spectrogram freqs times_arr spg (Some (lo, hi)) None =
       Inr (filter (in_range lo hi) freqs, times_arr,
            \<lparr>ncols = ncols spg, rows = select (range_mask freqs lo hi) (rows spg)\<rparr>)"
  by (simp add: trim_spectrogram_def Let_def bool_index_def bool_index_rows_def
      length_range_mask select_range_mask)

lemma trim_spectrogram_time_only:
  "ncols spg = length times_arr \<Longrightarrow>
     trim_spectrogram freqs times_arr spg None (Some (tlo, thi)) =
       Inr (freqs, filter (in_range tlo thi) times_arr,
            \<lparr>ncols = length (filter (in_range tlo thi) times_arr),
             rows = map (select (range_mask times_arr tlo thi)) (rows spg)\<rparr>)"
  by (simp add: trim_spectrogram_def Let_def bool_index_def bool_index_cols_def
      length_range_mask select_range_mask filter_id_range_mask)

lemma trim_spectrogram_none: "trim_spectrogram freqs times_arr spg None None = Inr (freqs, times_arr, spg)"
  by (simp add: trim_spectrogram_def)

lemma in_range_fun: "in_range low high = (\<lambda>c. low \<le> c \<and> c \<le> high)"
  by (rule ext) (simp add: in_range_def)

lemma select_map_zip: "select (map P c) xs = map snd (filter (\<lambda>cx. P (fst cx)) (zip c xs))"
proof (induction c arbitrary: xs)
  case Nil
  then show ?case by (simp add: select_def)
next
  case (Cons a c)
  then show ?case by (cases xs) (simp_all add: select_def)
qed

lemma select_map_commute: "select m (map f xs) = map f (select m xs)"
proof (induction m arbitrary: xs)
  case Nil
  then show ?case by (simp add: select_def)
next
  case (Cons b m)
  then show ?case by (cases xs) (simp_all add: select_def)
qed

lemma select_range_mask_trimmed:
  assumes "length xs = length (filter (in_range low high) c)"
  shows "select (range_mask (filter (in_range low high) c) low high) xs = xs"
  unfolding range_mask_map using assms by (intro select_all_true) simp_all

lemma set_select_subset: "set (select m xs) \<subseteq> set xs"
  by (auto simp: select_def dest: set_zip_rightD)

lemma wf_bool_index_cols:
  assumes "wf_array2 a" and "length m = ncols a"
  shows "wf_array2 \<lparr>ncols = length (filter id m), rows = map (select m) (rows a)\<rparr>"
  using assms by (simp add: wf_array2_def list_all_iff length_select)

lemma wf_bool_index_rows:
  assumes "wf_array2 a"
  shows "wf_array2 \<lparr>ncols = ncols a, rows = select m (rows a)\<rparr>"
  using assms set_select_subset [of m "rows a"] by (auto simp: wf_array2_def list_all_iff)

section \<open>C2: what trim\_spectrum returns\<close>

text \<open>
  C2. For \<^verbatim>\<open>freqs\<close> of length \<open>N\<close> and \<^verbatim>\<open>f_range = [lo, hi]\<close>, with \<open>mask\<close> the range
  mask over \<^verbatim>\<open>freqs\<close>: a 1-D \<^verbatim>\<open>power_spectra\<close> of length \<open>N\<close> gives
  \<open>(freqs[mask], power_spectra[mask])\<close>, the powers kept being those whose frequency is in
  the range, and both outputs have the same length; a 2-D \<^verbatim>\<open>power_spectra\<close> of shape
  \<open>[n_spectra, N]\<close> gives \<open>(freqs[mask], power_spectra[:, mask])\<close>, every row trimmed along
  the last axis to the length of the output frequencies, the number of rows unchanged.
  The example of the test suite: trimming \<open>[5,6,7,8,9]\<close> with powers \<open>[1,2,3,4,5]\<close> to
  \<open>[6,8]\<close> gives \<open>[6,7,8]\<close> and \<open>[2,3,4]\<close>.
\<close>

theorem trim_spectrum_masks_last_axis:
  "(length p = length freqs \<longrightarrow>
      (\<exists>fe pe. bool_index (range_mask freqs lo hi) freqs = Inr fe \<and>
         bool_index (range_mask freqs lo hi) p = Inr pe \<and>
         trim_spectrum freqs (Arr1 p) (lo, hi) = Inr (fe, Arr1 pe) \<and>
         pe = map snd (filter (\<lambda>fx. lo \<le> fst fx \<and> fst fx \<le> hi) (zip freqs p)) \<and>
         length pe = length fe)) \<and>
   (ncols a = length freqs \<and> wf_array2 a \<longrightarrow>
      (\<exists>fe ae. bool_index (range_mask freqs lo hi) freqs = Inr fe \<and>
         bool_index_cols (range_mask freqs lo hi) a = Inr ae \<and>
         trim_spectrum freqs (Arr2 a) (lo, hi) = Inr (fe, Arr2 ae) \<and>
         rows ae =
           map (\<lambda>r. map snd (filter (\<lambda>fx. lo \<le> fst fx \<and> fst fx \<le> hi) (zip freqs r))) (rows a) \<and>
         ncols ae = length fe \<and> nrows ae = nrows a \<and> wf_array2 ae)) \<and>
   trim_spectrum [5, 6, 7, 8, 9 :: int] (Arr1 [1, 2, 3, 4, 5 :: int]) (6, 8) =
     Inr ([6, 7, 8], Arr1 [2, 3, 4])"
proof (intro conjI impI)
  assume len: "length p = length freqs"
  let ?m = "range_mask freqs lo hi"
  have 1: "bool_index ?m p = Inr (select ?m p)"
    using len by (simp add: bool_index_def length_range_mask)
  have 2: "trim_spectrum freqs (Arr1 p) (lo, hi) =
      Inr (filter (in_range lo hi) freqs, Arr1 (select ?m p))"
    using len by (rule trim_spectrum_Arr1)
  have 3: "select ?m p = map snd (filter (\<lambda>fx. lo \<le> fst fx \<and> fst fx \<le> hi) (zip freqs p))"
    by (simp add: range_mask_map select_map_zip in_range_def)
  have 4: "length (select ?m p) = length (filter (in_range lo hi) freqs)"
    using len by (rule length_select_range_mask)
  from 1 2 3 4 show "\<exists>fe pe. bool_index ?m freqs = Inr fe \<and>
         bool_index ?m p = Inr pe \<and>
         trim_spectrum freqs (Arr1 p) (lo, hi) = Inr (fe, Arr1 pe) \<and>
         pe = map snd (filter (\<lambda>fx. lo \<le> fst fx \<and> fst fx \<le> hi) (zip freqs p)) \<and>
         length pe = length fe"
    unfolding bool_index_range_mask by blast
next
  assume "ncols a = length freqs \<and> wf_array2 a"
  then have nc: "ncols a = length freqs" and wf: "wf_array2 a" by simp_all
  let ?m = "range_mask freqs lo hi"
  let ?ae = "\<lparr>ncols = length (filter id ?m), rows = map (select ?m) (rows a)\<rparr>"
  have 1: "bool_index_cols ?m a = Inr ?ae"
    using nc by (simp add: bool_index_cols_def length_range_mask)
  have 2: "trim_spectrum freqs (Arr2 a) (lo, hi) = Inr (filter (in_range lo hi) freqs, Arr2 ?ae)"
    using nc by (simp add: trim_spectrum_Arr2 filter_id_range_mask)
  have 3: "rows ?ae =
      map (\<lambda>r. map snd (filter (\<lambda>fx. lo \<le> fst fx \<and> fst fx \<le> hi) (zip freqs r))) (rows a)"
    by (simp add: range_mask_map select_map_zip in_range_def)
  have 4: "wf_array2 ?ae"
    using wf nc by (intro wf_bool_index_cols) (simp_all add: length_range_mask)
  have 5: "ncols ?ae = length (filter (in_range lo hi) freqs)"
    by (simp add: filter_id_range_mask)
  have 6: "nrows ?ae = nrows a"
    by (simp add: nrows_def)
  from 1 2 3 4 5 6 show "\<exists>fe ae. bool_index ?m freqs = Inr fe \<and>
         bool_index_cols ?m a = Inr ae \<and>
         trim_spectrum freqs (Arr2 a) (lo, hi) = Inr (fe, Arr2 ae) \<and>
         rows ae =
           map (\<lambda>r. map snd (filter (\<lambda>fx. lo \<le> fst fx \<and> fst fx \<le> hi) (zip freqs r))) (rows a) \<and>
         ncols ae = length fe \<and> nrows ae = nrows a \<and> wf_array2 ae"
    unfolding bool_index_range_mask by blast
next
  show "trim_spectrum [5, 6, 7, 8, 9 :: int] (Arr1 [1, 2, 3, 4, 5 :: int]) (6, 8) =
     Inr ([6, 7, 8], Arr1 [2, 3, 4])"
    by (simp add: trim_spectrum_def Let_def bool_index_def range_mask_def logical_and_def
        select_def)
qed

theorem trim_spectrum_masks_last_axis_witness:
  "length [1, 2, 3, 4 :: int] = length [5, 6, 7, 8 :: int] \<and>
   trim_spectrum [5, 6, 7, 8 :: int] (Arr1 [1, 2, 3, 4 :: int]) (7, 9) = Inr ([7, 8], Arr1 [3, 4]) \<and>
   ncols \<lparr>ncols = 4, rows = [[1, 2, 3, 4], [10, 20, 30, 40 :: int]]\<rparr> = length [5, 6, 7, 8 :: int] \<and>
   wf_array2 \<lparr>ncols = 4, rows = [[1, 2, 3, 4], [10, 20, 30, 40 :: int]]\<rparr> \<and>
   trim_spectrum [5, 6, 7, 8 :: int] (Arr2 \<lparr>ncols = 4, rows = [[1, 2, 3, 4], [10, 20, 30, 40 :: int]]\<rparr>)
     (7, 9) = Inr ([7, 8], Arr2 \<lparr>ncols = 2, rows = [[3, 4], [30, 40]]\<rparr>)"
proof -
  have w: "wf_array2 \<lparr>ncols = 4, rows = [[1, 2, 3, 4], [10, 20, 30, 40 :: int]]\<rparr>"
    by (simp add: wf_array2_def)
  have m: "range_mask [5, 6, 7, 8 :: int] 7 9 = [False, False, True, True]"
    by (simp add: range_mask_def logical_and_def)
  show ?thesis
    using w trim_spectrum_masks_last_axis [of "[1, 2, 3, 4 :: int]" "[5, 6, 7, 8 :: int]" 7 9
        "\<lparr>ncols = 4, rows = [[1, 2, 3, 4], [10, 20, 30, 40 :: int]]\<rparr>"]
    by (auto simp: m bool_index_def bool_index_cols_def select_def)
qed

lemma subseq_select: "subseq (select m xs) xs"
proof (induction m arbitrary: xs)
  case Nil
  then show ?case by (simp add: select_def)
next
  case (Cons b m)
  show ?case
  proof (cases xs)
    case Nil
    then show ?thesis by (simp add: select_def)
  next
    case (Cons y ys)
    with Cons.IH [of ys] show ?thesis by (cases b) (auto simp: select_def intro: list_emb_Cons)
  qed
qed

section \<open>C3: the two axes of trim\_spectrogram are independent\<close>

text \<open>
  C3. For a spectrogram aligned with \<^verbatim>\<open>freqs\<close> and \<^verbatim>\<open>times\<close>, no call fails, and trimming the
  frequency axis and then the time axis of the result, trimming the time axis and then the
  frequency axis, and one call with both ranges all return the same triple. With
  \<^verbatim>\<open>t_range=None\<close> the times come back as they were and every row kept is a whole row of
  the input; with \<^verbatim>\<open>f_range=None\<close> the frequencies come back as they were and no row is
  dropped; with both \<^verbatim>\<open>None\<close> the three inputs are returned.
\<close>

theorem trim_spectrogram_axes_commute:
  assumes "spg_aligned freqs times_arr spg"
  shows "(\<exists>fe te se. trim_spectrogram freqs times_arr spg (Some fr) (Some tr) = Inr (fe, te, se)) \<and>
         trim_spectrogram_again (trim_spectrogram freqs times_arr spg (Some fr) None) None (Some tr) =
           trim_spectrogram freqs times_arr spg (Some fr) (Some tr) \<and>
         trim_spectrogram_again (trim_spectrogram freqs times_arr spg None (Some tr)) (Some fr) None =
           trim_spectrogram freqs times_arr spg (Some fr) (Some tr) \<and>
         (\<exists>fe se. trim_spectrogram freqs times_arr spg (Some fr) None = Inr (fe, times_arr, se) \<and>
            ncols se = ncols spg \<and> subseq (rows se) (rows spg)) \<and>
         (\<exists>te se. trim_spectrogram freqs times_arr spg None (Some tr) = Inr (freqs, te, se) \<and>
            nrows se = nrows spg \<and> list_all2 subseq (rows se) (rows spg)) \<and>
         trim_spectrogram freqs times_arr spg None None = Inr (freqs, times_arr, spg)"
proof -
  obtain lo hi where fr: "fr = (lo, hi)" by (cases fr)
  obtain tlo thi where tr: "tr = (tlo, thi)" by (cases tr)
  from assms have nr: "nrows spg = length freqs" and nc: "ncols spg = length times_arr"
    by (simp_all add: spg_aligned_def)
  let ?fm = "range_mask freqs lo hi" and ?tm = "range_mask times_arr tlo thi"
  let ?F = "filter (in_range lo hi) freqs" and ?T = "filter (in_range tlo thi) times_arr"
  have both: "trim_spectrogram freqs times_arr spg (Some fr) (Some tr) =
      Inr (?F, ?T, \<lparr>ncols = length ?T, rows = map (select ?tm) (select ?fm (rows spg))\<rparr>)"
    unfolding fr tr using nr nc by (rule trim_spectrogram_aligned)
  have f_only: "trim_spectrogram freqs times_arr spg (Some fr) None =
      Inr (?F, times_arr, \<lparr>ncols = ncols spg, rows = select ?fm (rows spg)\<rparr>)"
    unfolding fr using nr by (rule trim_spectrogram_freq_only)
  have t_only: "trim_spectrogram freqs times_arr spg None (Some tr) =
      Inr (freqs, ?T, \<lparr>ncols = length ?T, rows = map (select ?tm) (rows spg)\<rparr>)"
    unfolding tr using nc by (rule trim_spectrogram_time_only)
  have ft: "trim_spectrogram_again (trim_spectrogram freqs times_arr spg (Some fr) None) None (Some tr) =
      trim_spectrogram freqs times_arr spg (Some fr) (Some tr)"
    unfolding f_only both by (simp add: trim_spectrogram_again_def tr trim_spectrogram_time_only nc)
  have tf: "trim_spectrogram_again (trim_spectrogram freqs times_arr spg None (Some tr)) (Some fr) None =
      trim_spectrogram freqs times_arr spg (Some fr) (Some tr)"
    unfolding t_only both
    by (simp add: trim_spectrogram_again_def fr trim_spectrogram_freq_only nrows_def nr [unfolded nrows_def]
        select_map_commute)
  have sub_rows: "subseq (select ?fm (rows spg)) (rows spg)"
    by (rule subseq_select)
  have sub_cols: "list_all2 subseq (map (select ?tm) (rows spg)) (rows spg)"
    by (simp add: list_all2_map1 list_all2_same subseq_select)
  show ?thesis
    using both ft tf f_only t_only sub_rows sub_cols
    by (simp add: trim_spectrogram_none nrows_def)
qed

theorem trim_spectrogram_axes_commute_witness:
  "spg_aligned [5, 6, 7, 8 :: int] [0, 1, 2 :: int]
     \<lparr>ncols = 3, rows = [[1, 2, 3], [4, 5, 6], [7, 8, 9], [10, 11, 12 :: int]]\<rparr> \<and>
   trim_spectrogram [5, 6, 7, 8 :: int] [0, 1, 2 :: int]
     \<lparr>ncols = 3, rows = [[1, 2, 3], [4, 5, 6], [7, 8, 9], [10, 11, 12 :: int]]\<rparr>
     (Some (6, 8)) (Some (0, 1)) =
     Inr ([6, 7, 8], [0, 1], \<lparr>ncols = 2, rows = [[4, 5], [7, 8], [10, 11]]\<rparr>) \<and>
   trim_spectrogram_again
     (trim_spectrogram [5, 6, 7, 8 :: int] [0, 1, 2 :: int]
        \<lparr>ncols = 3, rows = [[1, 2, 3], [4, 5, 6], [7, 8, 9], [10, 11, 12 :: int]]\<rparr>
        None (Some (0, 1)))
     (Some (6, 8)) None =
     Inr ([6, 7, 8], [0, 1], \<lparr>ncols = 2, rows = [[4, 5], [7, 8], [10, 11]]\<rparr>)"
proof -
  have b: "spg_aligned [5, 6, 7, 8 :: int] [0, 1, 2 :: int]
     \<lparr>ncols = 3, rows = [[1, 2, 3], [4, 5, 6], [7, 8, 9], [10, 11, 12 :: int]]\<rparr>"
    by (simp add: spg_aligned_def nrows_def wf_array2_def)
  have e: "trim_spectrogram [5, 6, 7, 8 :: int] [0, 1, 2 :: int]
     \<lparr>ncols = 3, rows = [[1, 2, 3], [4, 5, 6], [7, 8, 9], [10, 11, 12 :: int]]\<rparr>
     (Some (6, 8)) (Some (0, 1)) =
     Inr ([6, 7, 8], [0, 1], \<lparr>ncols = 2, rows = [[4, 5], [7, 8], [10, 11]]\<rparr>)"
    by (simp add: trim_spectrogram_def Let_def bool_index_def bool_index_rows_def
        bool_index_cols_def nrows_def range_mask_def logical_and_def select_def)
  show ?thesis
    using b e trim_spectrogram_axes_commute [OF b, of "(6, 8)" "(0, 1)"] by simp
qed

section \<open>A second trim of trimmed outputs\<close>

lemma trim_spectrum_idem_aligned:
  assumes "spectra_aligned freqs power_spectra"
  shows "\<exists>fe pe. trim_spectrum freqs power_spectra (lo, hi) = Inr (fe, pe) \<and>
           trim_spectrum fe pe (lo, hi) = Inr (fe, pe)"
proof (cases power_spectra)
  case (Arr1 p)
  with assms have len: "length p = length freqs" by (simp add: spectra_aligned_def)
  let ?F = "filter (in_range lo hi) freqs" and ?P = "select (range_mask freqs lo hi) p"
  have l2: "length ?P = length ?F" using len by (rule length_select_range_mask)
  have "trim_spectrum ?F (Arr1 ?P) (lo, hi) = Inr (?F, Arr1 ?P)"
    by (simp add: trim_spectrum_Arr1 [OF l2] select_range_mask_trimmed [OF l2])
  with Arr1 len show ?thesis by (simp add: trim_spectrum_Arr1)
next
  case (Arr2 a)
  with assms have nc: "ncols a = length freqs" and wf: "wf_array2 a"
    by (simp_all add: spectra_aligned_def)
  let ?m = "range_mask freqs lo hi"
  let ?F = "filter (in_range lo hi) freqs"
  let ?A = "\<lparr>ncols = length ?F, rows = map (select ?m) (rows a)\<rparr>"
  have rows_fix: "\<forall>r\<in>set (rows a). select (range_mask ?F lo hi) (select ?m r) = select ?m r"
  proof
    fix r assume "r \<in> set (rows a)"
    with wf nc have "length r = length freqs" by (simp add: wf_array2_def list_all_iff)
    then have "length (select ?m r) = length ?F" by (rule length_select_range_mask)
    then show "select (range_mask ?F lo hi) (select ?m r) = select ?m r"
      by (rule select_range_mask_trimmed)
  qed
  have "trim_spectrum ?F (Arr2 ?A) (lo, hi) = Inr (?F, Arr2 ?A)"
    by (simp add: trim_spectrum_Arr2 rows_fix)
  with Arr2 nc show ?thesis by (simp add: trim_spectrum_Arr2)
qed

lemma trim_spectrogram_idem_aligned:
  assumes "spg_aligned freqs times_arr spg"
  shows "\<exists>fe te se. trim_spectrogram freqs times_arr spg f_range t_range = Inr (fe, te, se) \<and>
           trim_spectrogram fe te se f_range t_range = Inr (fe, te, se)"
proof -
  from assms have nr: "length (rows spg) = length freqs" and nc: "ncols spg = length times_arr"
    and wf: "\<forall>r\<in>set (rows spg). length r = length times_arr"
    by (simp_all add: spg_aligned_def nrows_def wf_array2_def list_all_iff)
  have rows_fix: "select (range_mask (filter (in_range lo hi) freqs) lo hi)
      (select (range_mask freqs lo hi) rs) = select (range_mask freqs lo hi) rs"
    if "length rs = length freqs" for lo hi and rs :: "'d list"
    using that by (intro select_range_mask_trimmed length_select_range_mask)
  have cols_fix: "\<forall>r\<in>set rs. select (range_mask (filter (in_range tlo thi) times_arr) tlo thi)
      (select (range_mask times_arr tlo thi) r) = select (range_mask times_arr tlo thi) r"
    if "\<forall>r\<in>set rs. length r = length times_arr" for tlo thi and rs :: "'c list list"
    using that by (auto intro!: select_range_mask_trimmed length_select_range_mask)
  show ?thesis
  proof (cases f_range)
    case None
    show ?thesis
    proof (cases t_range)
      case None
      with \<open>f_range = None\<close> show ?thesis by (simp add: trim_spectrogram_none)
    next
      case (Some tr)
      obtain tlo thi where tr: "tr = (tlo, thi)" by (cases tr)
      show ?thesis
        unfolding \<open>f_range = None\<close> Some tr
        by (simp add: trim_spectrogram_time_only nc cols_fix [OF wf])
    qed
  next
    case (Some fr)
    obtain lo hi where fr: "fr = (lo, hi)" by (cases fr)
    have wf2: "\<forall>r\<in>set (select (range_mask freqs lo hi) (rows spg)). length r = length times_arr"
      using wf set_select_subset [of "range_mask freqs lo hi" "rows spg"] by auto
    show ?thesis
    proof (cases t_range)
      case None
      show ?thesis
        unfolding \<open>f_range = Some fr\<close> None fr
        by (simp add: trim_spectrogram_freq_only nrows_def nr length_select_range_mask rows_fix)
    next
      case (Some tr)
      obtain tlo thi where tr: "tr = (tlo, thi)" by (cases tr)
      let ?fm = "range_mask freqs lo hi" and ?tm = "range_mask times_arr tlo thi"
      let ?F = "filter (in_range lo hi) freqs" and ?T = "filter (in_range tlo thi) times_arr"
      let ?R = "map (select ?tm) (select ?fm (rows spg))"
      have first: "trim_spectrogram freqs times_arr spg (Some (lo, hi)) (Some (tlo, thi)) =
          Inr (?F, ?T, \<lparr>ncols = length ?T, rows = ?R\<rparr>)"
        by (simp add: trim_spectrogram_aligned nrows_def nr nc)
      have "select (range_mask ?F lo hi) ?R = map (select ?tm) (select (range_mask ?F lo hi) (select ?fm (rows spg)))"
        by (rule select_map_commute)
      also have "\<dots> = ?R"
        by (simp only: rows_fix [OF nr])
      finally have r1: "select (range_mask ?F lo hi) ?R = ?R" .
      have r2: "map (select (range_mask ?T tlo thi)) ?R = ?R"
        using cols_fix [OF wf2, of tlo thi] by simp
      have len: "length ?R = length ?F"
        by (simp add: length_select_range_mask nr)
      have second: "trim_spectrogram ?F ?T \<lparr>ncols = length ?T, rows = ?R\<rparr> (Some (lo, hi)) (Some (tlo, thi)) =
          Inr (?F, ?T, \<lparr>ncols = length ?T, rows = ?R\<rparr>)"
      proof -
        have "nrows \<lparr>ncols = length ?T, rows = ?R\<rparr> = length ?F"
          and "ncols \<lparr>ncols = length ?T, rows = ?R\<rparr> = length ?T"
          using len by (simp_all add: nrows_def)
        from trim_spectrogram_aligned [OF this, of lo hi tlo thi] show ?thesis
          using r1 r2 by simp
      qed
      show ?thesis
        unfolding \<open>f_range = Some fr\<close> Some fr tr using first second by simp
    qed
  qed
qed

section \<open>C8: trimming again to the same range changes nothing\<close>

text \<open>
  C8. On aligned inputs \<^verbatim>\<open>trim_spectrum\<close> succeeds, and applying it with the same
  \<^verbatim>\<open>f_range\<close> to its own outputs returns these outputs again; likewise
  \<^verbatim>\<open>trim_spectrogram\<close> with the same \<^verbatim>\<open>f_range\<close> and \<^verbatim>\<open>t_range\<close> (each a range or \<^verbatim>\<open>None\<close>).
\<close>

theorem trim_idempotent:
  assumes "spectra_aligned freqs power_spectra" and "spg_aligned freqs times_arr spg"
  shows "(\<exists>fe pe. trim_spectrum freqs power_spectra f_range = Inr (fe, pe)) \<and>
         trim_spectrum_again (trim_spectrum freqs power_spectra f_range) f_range =
           trim_spectrum freqs power_spectra f_range \<and>
         (\<exists>fe te se. trim_spectrogram freqs times_arr spg fo t_o = Inr (fe, te, se)) \<and>
         trim_spectrogram_again (trim_spectrogram freqs times_arr spg fo t_o) fo t_o =
           trim_spectrogram freqs times_arr spg fo t_o"
proof -
  obtain lo hi where fr: "f_range = (lo, hi)" by (cases f_range)
  from trim_spectrum_idem_aligned [OF assms(1), of lo hi]
  obtain fe pe where 1: "trim_spectrum freqs power_spectra f_range = Inr (fe, pe)"
    and 2: "trim_spectrum fe pe f_range = Inr (fe, pe)"
    unfolding fr by blast
  from trim_spectrogram_idem_aligned [OF assms(2), of fo t_o]
  obtain ge te se where 3: "trim_spectrogram freqs times_arr spg fo t_o = Inr (ge, te, se)"
    and 4: "trim_spectrogram ge te se fo t_o = Inr (ge, te, se)"
    by blast
  from 1 2 3 4 show ?thesis
    by (simp add: trim_spectrum_again_def trim_spectrogram_again_def)
qed

theorem trim_idempotent_witness:
  "spectra_aligned [5, 6, 7, 8 :: int] (Arr1 [1, 2, 3, 4 :: int]) \<and>
   spg_aligned [5, 6, 7, 8 :: int] [0, 1, 2 :: int]
     \<lparr>ncols = 3, rows = [[1, 2, 3], [4, 5, 6], [7, 8, 9], [10, 11, 12 :: int]]\<rparr> \<and>
   trim_spectrum [5, 6, 7, 8 :: int] (Arr1 [1, 2, 3, 4 :: int]) (6, 7) = Inr ([6, 7], Arr1 [2, 3]) \<and>
   trim_spectrum_again (trim_spectrum [5, 6, 7, 8 :: int] (Arr1 [1, 2, 3, 4 :: int]) (6, 7)) (6, 7) =
     Inr ([6, 7], Arr1 [2, 3]) \<and>
   trim_spectrogram_again
     (trim_spectrogram [5, 6, 7, 8 :: int] [0, 1, 2 :: int]
        \<lparr>ncols = 3, rows = [[1, 2, 3], [4, 5, 6], [7, 8, 9], [10, 11, 12 :: int]]\<rparr>
        (Some (6, 8)) (Some (0, 1)))
     (Some (6, 8)) (Some (0, 1)) =
     Inr ([6, 7, 8], [0, 1], \<lparr>ncols = 2, rows = [[4, 5], [7, 8], [10, 11]]\<rparr>)"
proof -
  have a: "spectra_aligned [5, 6, 7, 8 :: int] (Arr1 [1, 2, 3, 4 :: int])"
    by (simp add: spectra_aligned_def)
  have b: "spg_aligned [5, 6, 7, 8 :: int] [0, 1, 2 :: int]
     \<lparr>ncols = 3, rows = [[1, 2, 3], [4, 5, 6], [7, 8, 9], [10, 11, 12 :: int]]\<rparr>"
    by (simp add: spg_aligned_def nrows_def wf_array2_def)
  have c: "trim_spectrum [5, 6, 7, 8 :: int] (Arr1 [1, 2, 3, 4 :: int]) (6, 7) = Inr ([6, 7], Arr1 [2, 3])"
    by (simp add: trim_spectrum_def Let_def bool_index_def range_mask_def logical_and_def select_def)
  have e: "trim_spectrogram [5, 6, 7, 8 :: int] [0, 1, 2 :: int]
     \<lparr>ncols = 3, rows = [[1, 2, 3], [4, 5, 6], [7, 8, 9], [10, 11, 12 :: int]]\<rparr>
     (Some (6, 8)) (Some (0, 1)) =
     Inr ([6, 7, 8], [0, 1], \<lparr>ncols = 2, rows = [[4, 5], [7, 8], [10, 11]]\<rparr>)"
    by (simp add: trim_spectrogram_def Let_def bool_index_def bool_index_rows_def
        bool_index_cols_def nrows_def range_mask_def logical_and_def select_def)
  show ?thesis
    using a b c e trim_idempotent [OF a b, of "(6, 7)" "Some (6, 8)" "Some (0, 1)"] by simp
qed

section \<open>Slices and halves\<close>

lemma ceil_half_nat: "nat \<lceil>real n / 2\<rceil> = (n + 1) div 2"
proof -
  have "\<lceil>real n / 2\<rceil> = \<lceil>of_int (int n) / (of_int 2 :: real)\<rceil>" by simp
  also have "\<dots> = - (- int n div 2)" by (rule ceiling_divide_eq_div)
  also have "\<dots> = (int n + 1) div 2" by linarith
  finally show ?thesis by (simp add: nat_div_distrib nat_add_distrib)
qed

lemma floor_half_int: "\<lfloor>real_of_int k / 2\<rfloor> = k div 2"
proof -
  have "\<lfloor>real_of_int k / 2\<rfloor> = \<lfloor>of_int k / (of_int 2 :: real)\<rfloor>" by simp
  also have "\<dots> = k div 2" by (rule floor_divide_of_int_eq)
  finally show ?thesis .
qed

lemma ceil_half_int: "\<lceil>real_of_int k / 2\<rceil> = (k + 1) div 2"
proof -
  have "\<lceil>real_of_int k / 2\<rceil> = \<lceil>of_int k / (of_int 2 :: real)\<rceil>" by simp
  also have "\<dots> = - (- k div 2)" by (rule ceiling_divide_eq_div)
  also have "\<dots> = (k + 1) div 2" by linarith
  finally show ?thesis .
qed

lemma py_slice_nth:
  assumes "stop \<le> length xs"
  shows "py_slice start stop xs = map ((!) xs) [start..<stop]"
proof (rule nth_equalityI)
  show "length (py_slice start stop xs) = length (map ((!) xs) [start..<stop])"
    using assms by (simp add: py_slice_def)
next
  fix i assume "i < length (py_slice start stop xs)"
  then have "i < stop - start" by (simp add: py_slice_def)
  with assms show "py_slice start stop xs ! i = map ((!) xs) [start..<stop] ! i"
    by (simp add: py_slice_def)
qed

lemma length_py_slice: "length (py_slice start stop xs) = min (stop - start) (length xs - start)"
  by (simp add: py_slice_def)

lemma gpfo_None:
  "get_positive_fft_outputs freqs None drop_zero =
     Freqs (py_slice (if drop_zero then 1 else 0) ((length freqs + 1) div 2) freqs)"
  by (simp add: get_positive_fft_outputs_def Let_def ceil_half_nat)

lemma gpfo_Some:
  "get_positive_fft_outputs freqs (Some p) drop_zero =
     FreqsPowers (py_slice (if drop_zero then 1 else 0) ((length freqs + 1) div 2) freqs)
       (py_slice (if drop_zero then 1 else 0) ((length freqs + 1) div 2) p)"
  by (simp add: get_positive_fft_outputs_def Let_def ceil_half_nat)

lemma tl_py_slice: "tl (py_slice 0 stop xs) = py_slice 1 stop xs"
  by (simp add: py_slice_def tl_take drop_Suc)

section \<open>C4: the positive half of an FFT output\<close>

text \<open>
  C4. For \<^verbatim>\<open>freqs\<close> of length \<open>N\<close>, \<^verbatim>\<open>get_positive_fft_outputs\<close> returns the elements of
  \<^verbatim>\<open>freqs\<close> at the indices from \<open>start\<close> (1 if \<^verbatim>\<open>drop_zero\<close>, else 0) up to but excluding
  \<open>ceil(N/2)\<close>; with \<^verbatim>\<open>powers\<close> of length \<open>N\<close> it returns the pair of this slice and the slice
  of \<^verbatim>\<open>powers\<close> at the same indices, without \<^verbatim>\<open>powers\<close> the frequency slice alone. With
  \<^verbatim>\<open>drop_zero=False\<close> the result starts with \<open>freqs[0]\<close> and has \<open>N/2\<close> elements for even \<open>N\<close>
  and \<open>ceil(N/2) = (N+1)/2\<close> for odd \<open>N\<close>; with \<^verbatim>\<open>drop_zero=True\<close> the result is the same
  without its first element.
\<close>

theorem get_positive_fft_outputs_slice:
  "get_positive_fft_outputs freqs None drop_zero =
     Freqs (map ((!) freqs) [(if drop_zero then 1 else 0) ..< nat \<lceil>real (length freqs) / 2\<rceil>]) \<and>
   (length powers = length freqs \<longrightarrow>
      get_positive_fft_outputs freqs (Some powers) drop_zero =
        FreqsPowers
          (map ((!) freqs) [(if drop_zero then 1 else 0) ..< nat \<lceil>real (length freqs) / 2\<rceil>])
          (map ((!) powers) [(if drop_zero then 1 else 0) ..< nat \<lceil>real (length freqs) / 2\<rceil>])) \<and>
   (even (length freqs) \<longrightarrow>
      length (out_freqs (get_positive_fft_outputs freqs None False)) = length freqs div 2) \<and>
   (odd (length freqs) \<longrightarrow>
      length (out_freqs (get_positive_fft_outputs freqs None False)) = (length freqs + 1) div 2 \<and>
      int ((length freqs + 1) div 2) = \<lceil>real (length freqs) / 2\<rceil>) \<and>
   (freqs \<noteq> [] \<longrightarrow> hd (out_freqs (get_positive_fft_outputs freqs None False)) = freqs ! 0) \<and>
   out_freqs (get_positive_fft_outputs freqs None True) =
     tl (out_freqs (get_positive_fft_outputs freqs None False))"
proof -
  let ?e = "(length freqs + 1) div 2"
  have e: "nat \<lceil>real (length freqs) / 2\<rceil> = ?e" by (rule ceil_half_nat)
  have le: "?e \<le> length freqs" by simp
  have 1: "get_positive_fft_outputs freqs None drop_zero =
      Freqs (map ((!) freqs) [(if drop_zero then 1 else 0) ..< ?e])"
    unfolding gpfo_None using py_slice_nth [OF le] by simp
  have 2: "get_positive_fft_outputs freqs (Some powers) drop_zero =
        FreqsPowers (map ((!) freqs) [(if drop_zero then 1 else 0) ..< ?e])
          (map ((!) powers) [(if drop_zero then 1 else 0) ..< ?e])"
    if "length powers = length freqs"
  proof -
    from that le have "?e \<le> length powers" by simp
    from py_slice_nth [OF this] py_slice_nth [OF le] show ?thesis
      unfolding gpfo_Some by simp
  qed
  have 3: "length (out_freqs (get_positive_fft_outputs freqs None False)) = ?e"
    by (simp add: gpfo_None length_py_slice)
  have 4: "length (out_freqs (get_positive_fft_outputs freqs None False)) = length freqs div 2"
    if "even (length freqs)"
    using that 3 by (auto elim: evenE)
  have 5: "int ?e = \<lceil>real (length freqs) / 2\<rceil>"
    using e by linarith
  have 6: "hd (out_freqs (get_positive_fft_outputs freqs None False)) = freqs ! 0"
    if "freqs \<noteq> []"
  proof -
    from that have "0 < ?e" by (cases freqs) simp_all
    then show ?thesis
      using that by (simp add: gpfo_None py_slice_def hd_conv_nth)
  qed
  have 7: "out_freqs (get_positive_fft_outputs freqs None True) =
     tl (out_freqs (get_positive_fft_outputs freqs None False))"
    by (simp add: gpfo_None tl_py_slice)
  from 1 2 3 4 5 6 7 show ?thesis unfolding e by blast
qed

theorem get_positive_fft_outputs_slice_witness:
  "length [10, 11, 12, 13, 14 :: int] = length [0, 1, 2, -2, -1 :: int] \<and>
   odd (length [0, 1, 2, -2, -1 :: int]) \<and> [0, 1, 2, -2, -1 :: int] \<noteq> [] \<and>
   get_positive_fft_outputs [0, 1, 2, -2, -1 :: int] (Some [10, 11, 12, 13, 14 :: int]) True =
     FreqsPowers [1, 2] [11, 12] \<and>
   length (out_freqs (get_positive_fft_outputs [0, 1, 2, -2, -1 :: int] (None :: int list option) False)) = 3 \<and>
   hd (out_freqs (get_positive_fft_outputs [0, 1, 2, -2, -1 :: int] (None :: int list option) False)) = 0 \<and>
   even (length [0, 1, -2, -1 :: int]) \<and>
   length (out_freqs (get_positive_fft_outputs [0, 1, -2, -1 :: int] (None :: int list option) False)) = 2"
proof -
  let ?f5 = "[0, 1, 2, -2, -1 :: int]" and ?p5 = "[10, 11, 12, 13, 14 :: int]"
  let ?f4 = "[0, 1, -2, -1 :: int]"
  have h1: "length ?p5 = length ?f5" by simp
  have h2: "odd (length ?f5)" by simp
  have h3: "?f5 \<noteq> []" by simp
  have h4: "even (length ?f4)" by simp
  have c: "nat \<lceil>real (length ?f5) / 2\<rceil> = 3" by simp
  have u: "[Suc 0..<3] = [1, 2]" by (simp add: upt_rec)
  note t5 = get_positive_fft_outputs_slice [of ?f5 True ?p5]
  note t4 = get_positive_fft_outputs_slice [of ?f4 False "[] :: int list"]
  from t5 h1 have "get_positive_fft_outputs ?f5 (Some ?p5) True =
      FreqsPowers (map ((!) ?f5) [(if True then 1 else 0) ..< nat \<lceil>real (length ?f5) / 2\<rceil>])
        (map ((!) ?p5) [(if True then 1 else 0) ..< nat \<lceil>real (length ?f5) / 2\<rceil>])"
    by blast
  then have a: "get_positive_fft_outputs ?f5 (Some ?p5) True = FreqsPowers [1, 2] [11, 12]"
    unfolding c by (simp add: u)
  from t5 h2 have "length (out_freqs (get_positive_fft_outputs ?f5 (None :: int list option) False)) =
      (length ?f5 + 1) div 2"
    by blast
  then have b: "length (out_freqs (get_positive_fft_outputs ?f5 (None :: int list option) False)) = 3"
    by simp
  from t5 h3 have "hd (out_freqs (get_positive_fft_outputs ?f5 (None :: int list option) False)) = ?f5 ! 0"
    by blast
  then have d: "hd (out_freqs (get_positive_fft_outputs ?f5 (None :: int list option) False)) = 0"
    by simp
  from t4 h4 have "length (out_freqs (get_positive_fft_outputs ?f4 (None :: int list option) False)) =
      length ?f4 div 2"
    by blast
  then have e: "length (out_freqs (get_positive_fft_outputs ?f4 (None :: int list option) False)) = 2"
    by simp
  from h1 h2 h3 h4 a b d e show ?thesis by blast
qed

section \<open>C10: get\_positive\_fft\_outputs on short inputs\<close>

text \<open>
  C10. \<^verbatim>\<open>get_positive_fft_outputs\<close> returns a value for every input (slicing never reads out
  of range): one array without \<^verbatim>\<open>powers\<close>, a pair with. With \<^verbatim>\<open>drop_zero=True\<close> the frequency
  output has \<open>max(ceil(N/2) - 1, 0)\<close> elements, so it is empty for \<open>N = 0\<close> and \<open>N = 1\<close>; for
  \<open>N = 0\<close> and \<^verbatim>\<open>drop_zero=False\<close> it is empty too; and a \<^verbatim>\<open>powers\<close> array of length \<open>N\<close> is
  cut to the same length as the frequencies.
\<close>

theorem get_positive_fft_outputs_total:
  "(\<exists>fs. get_positive_fft_outputs freqs None drop_zero = Freqs fs) \<and>
   (\<exists>fs ps. get_positive_fft_outputs freqs (Some p) drop_zero = FreqsPowers fs ps) \<and>
   int (length (out_freqs (get_positive_fft_outputs freqs powers True))) =
     max (\<lceil>real (length freqs) / 2\<rceil> - 1) 0 \<and>
   (length freqs \<le> 1 \<longrightarrow> out_freqs (get_positive_fft_outputs freqs powers True) = []) \<and>
   (freqs = [] \<longrightarrow> out_freqs (get_positive_fft_outputs freqs powers False) = []) \<and>
   (length p = length freqs \<longrightarrow>
      length (out_powers (get_positive_fft_outputs freqs (Some p) drop_zero)) =
        length (out_freqs (get_positive_fft_outputs freqs (Some p) drop_zero)))"
proof -
  let ?e = "(length freqs + 1) div 2"
  have c: "\<lceil>real (length freqs) / 2\<rceil> = int ?e"
    using ceil_half_nat [of "length freqs"] by linarith
  have of: "out_freqs (get_positive_fft_outputs freqs powers dz) =
      py_slice (if dz then 1 else 0) ?e freqs" for dz
    by (cases powers) (simp_all add: gpfo_None gpfo_Some)
  have 1: "\<exists>fs. get_positive_fft_outputs freqs None drop_zero = Freqs fs"
    by (simp add: gpfo_None)
  have 2: "\<exists>fs ps. get_positive_fft_outputs freqs (Some p) drop_zero = FreqsPowers fs ps"
    by (simp add: gpfo_Some)
  have 3: "int (length (out_freqs (get_positive_fft_outputs freqs powers True))) =
      max (\<lceil>real (length freqs) / 2\<rceil> - 1) 0"
    unfolding c of by (simp add: length_py_slice)
  have 4: "out_freqs (get_positive_fft_outputs freqs powers True) = []" if "length freqs \<le> 1"
    using that unfolding of by (simp add: py_slice_def)
  have 5: "out_freqs (get_positive_fft_outputs freqs powers False) = []" if "freqs = []"
    using that unfolding of by (simp add: py_slice_def)
  have 6: "length (out_powers (get_positive_fft_outputs freqs (Some p) drop_zero)) =
        length (out_freqs (get_positive_fft_outputs freqs (Some p) drop_zero))"
    if "length p = length freqs"
    using that by (simp add: gpfo_Some length_py_slice)
  from 1 2 3 4 5 6 show ?thesis by blast
qed

theorem get_positive_fft_outputs_total_witness:
  "length [7 :: int] \<le> 1 \<and> length [3 :: int] = length [7 :: int] \<and>
   get_positive_fft_outputs [7 :: int] (Some [3 :: int]) True = FreqsPowers [] [] \<and>
   ([] :: int list) = [] \<and>
   get_positive_fft_outputs ([] :: int list) (Some ([] :: int list)) False = FreqsPowers [] []"
proof -
  note t1 = get_positive_fft_outputs_total [of "[7 :: int]" True "[3 :: int]" "Some [3 :: int]"]
  note t0 = get_positive_fft_outputs_total [of "[] :: int list" False "[] :: int list" "Some ([] :: int list)"]
  have h1: "length [7 :: int] \<le> 1" and h2: "length [3 :: int] = length [7 :: int]" by simp_all
  from t1 h1 have a: "out_freqs (get_positive_fft_outputs [7 :: int] (Some [3 :: int]) True) = []"
    by blast
  from t1 h2 have "length (out_powers (get_positive_fft_outputs [7 :: int] (Some [3 :: int]) True)) =
      length (out_freqs (get_positive_fft_outputs [7 :: int] (Some [3 :: int]) True))"
    by blast
  with a have b: "out_powers (get_positive_fft_outputs [7 :: int] (Some [3 :: int]) True) = []"
    by simp
  from t1 obtain fs ps where
    "get_positive_fft_outputs [7 :: int] (Some [3 :: int]) True = FreqsPowers fs ps"
    by blast
  with a b have r1: "get_positive_fft_outputs [7 :: int] (Some [3 :: int]) True = FreqsPowers [] []"
    by simp
  from t0 have a0: "out_freqs (get_positive_fft_outputs ([] :: int list) (Some ([] :: int list)) False) = []"
    by blast
  from t0 have "length (out_powers (get_positive_fft_outputs ([] :: int list) (Some ([] :: int list)) False)) =
      length (out_freqs (get_positive_fft_outputs ([] :: int list) (Some ([] :: int list)) False))"
    by blast
  with a0 have b0: "out_powers (get_positive_fft_outputs ([] :: int list) (Some ([] :: int list)) False) = []"
    by simp
  from t0 obtain fs ps where
    "get_positive_fft_outputs ([] :: int list) (Some ([] :: int list)) False = FreqsPowers fs ps"
    by blast
  with a0 b0 have r0:
    "get_positive_fft_outputs ([] :: int list) (Some ([] :: int list)) False = FreqsPowers [] []"
    by simp
  from h1 h2 r1 r0 show ?thesis by simp
qed

section \<open>Padding on both sides\<close>

lemma pad_signal_pads:
  assumes "int (length sig) < len" and "fast_len \<longrightarrow> len \<le> next_fast_len len"
  shows "pad_signal next_fast_len sig len fast_len =
     Inr (replicate (nat (((if fast_len then next_fast_len len else len) - int (length sig)) div 2)) 0
          @ sig @
          replicate (nat (((if fast_len then next_fast_len len else len) - int (length sig) + 1) div 2)) 0)"
  using assms by (auto simp: pad_signal_def np_pad_def Let_def floor_half_int ceil_half_int)

lemma pad_signal_keeps:
  assumes "len \<le> int (length sig)"
  shows "pad_signal next_fast_len sig len fast_len = Inr sig"
  using assms by (simp add: pad_signal_def)

section \<open>C5: how pad\_signal splits the padding\<close>

text \<open>
  C5. For a target length above the signal length \<open>L\<close> (and a next-fast-length function that
  does not shrink the target when \<^verbatim>\<open>fast_len\<close> is set), \<^verbatim>\<open>pad_signal\<close> returns \<open>left\<close> zeros,
  the samples in order, then \<open>right\<close> zeros, where \<open>total_pad\<close> is the (possibly adjusted)
  target minus \<open>L\<close>, \<open>left = floor(total_pad / 2)\<close> and \<open>right = ceil(total_pad / 2)\<close>; the two
  add up to \<open>total_pad\<close> and an odd \<open>total_pad\<close> puts the extra zero on the right. Without
  \<^verbatim>\<open>fast_len\<close>: \<open>[1,2,3]\<close> to length 5 is split (1, 1), \<open>[1,2]\<close> to 5 is split (1, 2), and
  \<open>[1,2,3]\<close> to 6 is split (1, 2).
\<close>

theorem pad_signal_split:
  assumes "int (length sig) < len" and "fast_len \<longrightarrow> len \<le> next_fast_len len"
  shows "(let total_pad = (if fast_len then next_fast_len len else len) - int (length sig);
              left = \<lfloor>real_of_int total_pad / 2\<rfloor>;
              right = \<lceil>real_of_int total_pad / 2\<rceil>
          in pad_signal next_fast_len sig len fast_len =
               Inr (replicate (nat left) 0 @ sig @ replicate (nat right) 0) \<and>
             0 \<le> left \<and> left + right = total_pad \<and>
             (even total_pad \<longrightarrow> right = left) \<and> (odd total_pad \<longrightarrow> right = left + 1)) \<and>
         pad_signal next_fast_len [1, 2, 3 :: int] 5 False = Inr ([0] @ [1, 2, 3] @ [0]) \<and>
         pad_signal next_fast_len [1, 2 :: int] 5 False = Inr ([0] @ [1, 2] @ [0, 0]) \<and>
         pad_signal next_fast_len [1, 2, 3 :: int] 6 False = Inr ([0] @ [1, 2, 3] @ [0, 0])"
proof -
  let ?tp = "(if fast_len then next_fast_len len else len) - int (length sig)"
  have pos: "0 < ?tp" using assms by auto
  have 1: "pad_signal next_fast_len sig len fast_len =
      Inr (replicate (nat (?tp div 2)) 0 @ sig @ replicate (nat ((?tp + 1) div 2)) 0)"
    using assms by (rule pad_signal_pads)
  have 2: "0 \<le> ?tp div 2" using pos by simp
  have 3: "?tp div 2 + (?tp + 1) div 2 = ?tp" by linarith
  have 4: "(?tp + 1) div 2 = ?tp div 2" if "even ?tp" using that by (auto elim: evenE)
  have 5: "(?tp + 1) div 2 = ?tp div 2 + 1" if "odd ?tp" using that by (auto elim: oddE)
  have ex: "pad_signal next_fast_len [1, 2, 3 :: int] 5 False = Inr ([0] @ [1, 2, 3] @ [0])"
    "pad_signal next_fast_len [1, 2 :: int] 5 False = Inr ([0] @ [1, 2] @ [0, 0])"
    "pad_signal next_fast_len [1, 2, 3 :: int] 6 False = Inr ([0] @ [1, 2, 3] @ [0, 0])"
    by (simp_all add: pad_signal_pads eval_nat_numeral)
  from 1 2 3 4 5 ex show ?thesis
    unfolding Let_def floor_half_int ceil_half_int by blast
qed

theorem pad_signal_split_witness:
  "int (length [1, 2 :: int]) < 4 \<and> (4::int) \<le> (+) 1 4 \<and>
   pad_signal ((+) 1) [1, 2 :: int] 4 True = Inr [0, 1, 2, 0, 0]"
proof -
  have h1: "int (length [1, 2 :: int]) < 4" by simp
  have h2: "True \<longrightarrow> (4::int) \<le> (+) 1 4" by simp
  have "pad_signal ((+) 1) [1, 2 :: int] 4 True =
      Inr (replicate (nat \<lfloor>real_of_int ((+) 1 4 - int (length [1, 2 :: int])) / 2\<rfloor>) 0 @ [1, 2] @
           replicate (nat \<lceil>real_of_int ((+) 1 4 - int (length [1, 2 :: int])) / 2\<rceil>) 0)"
    using pad_signal_split [where sig = "[1, 2 :: int]" and len = 4 and fast_len = True
        and next_fast_len = "(+) 1", OF h1 h2]
    by (simp add: Let_def)
  then show ?thesis by (simp add: eval_nat_numeral)
qed

section \<open>C6: pad\_signal never truncates\<close>

text \<open>
  C6. When the target length is at most the signal length, \<^verbatim>\<open>pad_signal\<close> returns the signal
  unchanged, whatever \<^verbatim>\<open>fast_len\<close> is and whatever the next fast length would be.
\<close>

theorem pad_signal_no_truncation:
  assumes "len \<le> int (length sig)"
  shows "pad_signal next_fast_len sig len fast_len = Inr sig"
  using assms by (rule pad_signal_keeps)

theorem pad_signal_no_truncation_witness:
  "(2::int) \<le> int (length [1, 2, 3 :: int]) \<and>
   pad_signal ((+) 1) [1, 2, 3 :: int] 2 False = Inr [1, 2, 3] \<and>
   pad_signal ((+) 1) [1, 2, 3 :: int] 3 True = Inr [1, 2, 3]"
proof -
  have h2: "(2::int) \<le> int (length [1, 2, 3 :: int])" by simp
  have h3: "(3::int) \<le> int (length [1, 2, 3 :: int])" by simp
  from pad_signal_no_truncation [where next_fast_len = "(+) 1" and fast_len = False, OF h2]
    pad_signal_no_truncation [where next_fast_len = "(+) 1" and fast_len = True, OF h3] h2
  show ?thesis by blast
qed

section \<open>C7: the length of the padded signal\<close>

text \<open>
  C7, as stated, for every target length: the output of \<^verbatim>\<open>pad_signal\<close> has the (possibly
  adjusted) target length. It fails below the signal length, where the guard
  \<^verbatim>\<open>if length > len(sig)\<close> returns the signal as it is: \<open>[1,2,3]\<close> with target 2 comes back
  with its 3 samples, and with target 3, \<^verbatim>\<open>fast_len=True\<close> and a next fast length of 4 it
  comes back with 3 samples, not 4.
\<close>

theorem pad_signal_length_counterexample:
  "pad_signal id [1, 2, 3 :: int] 2 False = Inr [1, 2, 3] \<and>
   int (length [1, 2, 3 :: int]) \<noteq> 2 \<and>
   pad_signal ((+) 1) [1, 2, 3 :: int] 3 True = Inr [1, 2, 3] \<and>
   int (length [1, 2, 3 :: int]) \<noteq> (+) 1 3"
  by (simp add: pad_signal_keeps)

text \<open>
  C7, amended. For a target length above the signal length \<open>L\<close> (and a next fast length not
  below the target when \<^verbatim>\<open>fast_len\<close> is set), the output of \<^verbatim>\<open>pad_signal\<close> has exactly the
  target length, adjusted to the next fast length when \<^verbatim>\<open>fast_len\<close> is set, and the samples
  are the \<open>L\<close> consecutive elements of the output starting at index
  \<open>left = floor(total_pad / 2)\<close>, in order. For a target length of at most \<open>L\<close> the output is
  the signal itself, of length \<open>L\<close>.
\<close>

theorem pad_signal_length:
  "(int (length sig) < len \<and> (fast_len \<longrightarrow> len \<le> next_fast_len len) \<longrightarrow>
      (\<exists>out. pad_signal next_fast_len sig len fast_len = Inr out \<and>
         int (length out) = (if fast_len then next_fast_len len else len) \<and>
         take (length sig)
           (drop (nat \<lfloor>real_of_int ((if fast_len then next_fast_len len else len)
                        - int (length sig)) / 2\<rfloor>) out) = sig)) \<and>
   (len \<le> int (length sig) \<longrightarrow> pad_signal next_fast_len sig len fast_len = Inr sig)"
proof (intro conjI impI)
  assume h: "int (length sig) < len \<and> (fast_len \<longrightarrow> len \<le> next_fast_len len)"
  let ?tp = "(if fast_len then next_fast_len len else len) - int (length sig)"
  let ?out = "replicate (nat (?tp div 2)) 0 @ sig @ replicate (nat ((?tp + 1) div 2)) 0"
  from h have pos: "0 < ?tp" by auto
  from h have 1: "pad_signal next_fast_len sig len fast_len = Inr ?out"
    by (intro pad_signal_pads) simp_all
  have "int (length ?out) = ?tp div 2 + int (length sig) + (?tp + 1) div 2"
    using pos by simp
  also have "\<dots> = ?tp + int (length sig)" by linarith
  finally have 2: "int (length ?out) = (if fast_len then next_fast_len len else len)" by simp
  have 3: "take (length sig) (drop (nat \<lfloor>real_of_int ?tp / 2\<rfloor>) ?out) = sig"
    unfolding floor_half_int by simp
  from 1 2 3 show "\<exists>out. pad_signal next_fast_len sig len fast_len = Inr out \<and>
         int (length out) = (if fast_len then next_fast_len len else len) \<and>
         take (length sig) (drop (nat \<lfloor>real_of_int ?tp / 2\<rfloor>) out) = sig"
    by blast
next
  assume "len \<le> int (length sig)"
  then show "pad_signal next_fast_len sig len fast_len = Inr sig"
    by (rule pad_signal_keeps)
qed

theorem pad_signal_length_witness:
  "int (length [1, 2 :: int]) < 4 \<and> (4::int) \<le> (+) 1 4 \<and>
   (\<exists>out. pad_signal ((+) 1) [1, 2 :: int] 4 True = Inr out \<and> int (length out) = 5 \<and>
      take 2 (drop 1 out) = [1, 2]) \<and>
   (2::int) \<le> int (length [1, 2, 3 :: int]) \<and>
   pad_signal ((+) 1) [1, 2, 3 :: int] 2 True = Inr [1, 2, 3]"
proof -
  have h1: "int (length [1, 2 :: int]) < 4 \<and> (True \<longrightarrow> (4::int) \<le> (+) 1 4)" by simp
  have h2: "(2::int) \<le> int (length [1, 2, 3 :: int])" by simp
  have c: "nat \<lfloor>real_of_int ((+) 1 4 - int (length [1, 2 :: int])) / 2\<rfloor> = 1"
    by (simp add: floor_half_int)
  note t = pad_signal_length [where sig = "[1, 2 :: int]" and len = 4 and fast_len = True
      and next_fast_len = "(+) 1"]
  from t h1 obtain out where o: "pad_signal ((+) 1) [1, 2 :: int] 4 True = Inr out"
    "int (length out) = (if True then (+) 1 4 else 4)"
    "take (length [1, 2 :: int])
       (drop (nat \<lfloor>real_of_int ((if True then (+) 1 4 else 4) - int (length [1, 2 :: int])) / 2\<rfloor>) out) =
     [1, 2]"
    by blast
  from o(3) c have "take 2 (drop 1 out) = [1, 2]" by (simp add: eval_nat_numeral)
  with o(1,2) have a: "\<exists>out. pad_signal ((+) 1) [1, 2 :: int] 4 True = Inr out \<and>
      int (length out) = 5 \<and> take 2 (drop 1 out) = [1, 2]"
    by auto
  from pad_signal_length [where sig = "[1, 2, 3 :: int]" and len = 2 and fast_len = True
      and next_fast_len = "(+) 1"] h2
  have b: "pad_signal ((+) 1) [1, 2, 3 :: int] 2 True = Inr [1, 2, 3]" by blast
  from h1 h2 a b show ?thesis by simp
qed

section \<open>Facts about the conversion to float64\<close>

lemma float64_of_int_small:
  assumes "\<bar>n\<bar> < 2 ^ 53"
  shows "float64_of_int n = n"
proof -
  let ?m = "nat \<bar>n\<bar>"
  have m: "?m < 2 ^ 53" using assms by (simp add: nat_less_iff)
  have "floorlog 2 ?m \<le> 53"
    by (rule floorlog_leI [OF m]) simp_all
  then have k: "floorlog 2 ?m - 53 = 0" by simp
  have "sgn n * int ?m = n" by (simp add: sgn_if)
  then show ?thesis by (simp add: float64_of_int_def Let_def k)
qed

lemma float64_of_int_tie: "float64_of_int 9007199254740993 = 9007199254740992"
proof -
  have "floorlog 2 (9007199254740993 :: nat) \<le> 54"
    by (rule floorlog_leI) simp_all
  moreover have "54 \<le> floorlog 2 (9007199254740993 :: nat)"
    by (rule floorlog_geI) simp_all
  ultimately have fl: "floorlog 2 (9007199254740993 :: nat) = 54"
    by (rule order_antisym)
  have m: "nat \<bar>9007199254740993 :: int\<bar> = 9007199254740993" by simp
  have k: "(54 :: nat) - 53 = 1" by simp
  have q: "(9007199254740993 :: nat) div 2 ^ 1 = 4503599627370496"
    and r: "(9007199254740993 :: nat) mod 2 ^ 1 = 1" by simp_all
  have e: "even (4503599627370496 :: nat)" by simp
  show ?thesis
    unfolding float64_of_int_def Let_def m fl k q r using e by simp
qed

lemma int_le_float: "(IntVal a \<le> FloatVal x) = (real_of_int (float64_of_int a) \<le> x)"
  and float_le_int: "(FloatVal x \<le> IntVal a) = (x \<le> real_of_int (float64_of_int a))"
  and int_le_int: "(IntVal a \<le> IntVal b) = (a \<le> b)"
  and float_le_float: "(FloatVal x \<le> FloatVal y) = (x \<le> y)"
  by (simp_all add: less_eq_npval_def)

lemma filter_in_range_exact:
  assumes "compared_exactly v cs lo hi"
  shows "filter (in_range lo hi) cs = filter (\<lambda>c. v lo \<le> v c \<and> v c \<le> v hi) cs"
  using assms by (intro filter_cong) (auto simp: compared_exactly_def in_range_def list_all_iff)

section \<open>C1: which coordinates the trimmers keep\<close>

text \<open>
  C1, as stated, for every coordinate array and bounds: the trimmers keep exactly the
  elements with \<open>lo \<le> C[i] \<le> hi\<close>. It fails when numpy compares after a rounding
  promotion: for the int64 frequency \<open>2^53 + 1\<close> and the float bounds \<open>[2^53, 2^53]\<close> the
  frequency is converted to the float64 \<open>2^53\<close>, both comparisons hold, and
  \<^verbatim>\<open>trim_spectrum\<close> keeps it although its value is above the upper bound.
\<close>

theorem trim_selects_inclusive_range_counterexample:
  "trim_spectrum [IntVal 9007199254740993] (Arr1 [1 :: int])
     (FloatVal 9007199254740992, FloatVal 9007199254740992) =
     Inr ([IntVal 9007199254740993], Arr1 [1]) \<and>
   \<not> np_value (IntVal 9007199254740993) \<le> np_value (FloatVal 9007199254740992)"
  by (simp add: trim_spectrum_def Let_def bool_index_def range_mask_def logical_and_def
      select_def int_le_float float_le_int float64_of_int_tie)

text \<open>
  C1, amended. Let the comparisons of the coordinates with the bounds be exact (coordinates
  and bounds of one dtype, or a promotion that rounds none of them). Then on aligned inputs
  \<^verbatim>\<open>trim_spectrum\<close> (over \<^verbatim>\<open>freqs\<close>) and \<^verbatim>\<open>trim_spectrogram\<close> (over \<^verbatim>\<open>freqs\<close> and
  \<^verbatim>\<open>times\<close>, with both ranges or with either one alone) return without error, and each
  trimmed coordinate array is the input filtered by \<open>lo \<le> c \<le> hi\<close>, both bounds
  inclusive: every kept element satisfies the predicate, every element of the input that
  satisfies it is kept, and the kept elements are in their original relative order; the
  coordinate array of an axis whose range is \<^verbatim>\<open>None\<close> is returned as given.
\<close>

theorem trim_selects_inclusive_range:
  fixes vf :: "'a::ord \<Rightarrow> 'r::linorder" and vt :: "'b::ord \<Rightarrow> 's::linorder"
  assumes "spectra_aligned freqs power_spectra" and "spg_aligned freqs times_arr spg"
  shows "let F = filter (\<lambda>c. vf lo \<le> vf c \<and> vf c \<le> vf hi) freqs;
             T = filter (\<lambda>c. vt tlo \<le> vt c \<and> vt c \<le> vt thi) times_arr
         in (compared_exactly vf freqs lo hi \<longrightarrow>
               (\<exists>pe. trim_spectrum freqs power_spectra (lo, hi) = Inr (F, pe)) \<and>
               (\<exists>se. trim_spectrogram freqs times_arr spg (Some (lo, hi)) None =
                  Inr (F, times_arr, se))) \<and>
            (compared_exactly vt times_arr tlo thi \<longrightarrow>
               (\<exists>se. trim_spectrogram freqs times_arr spg None (Some (tlo, thi)) =
                  Inr (freqs, T, se))) \<and>
            (compared_exactly vf freqs lo hi \<and> compared_exactly vt times_arr tlo thi \<longrightarrow>
               (\<exists>se. trim_spectrogram freqs times_arr spg (Some (lo, hi)) (Some (tlo, thi)) =
                  Inr (F, T, se))) \<and>
            (\<forall>e\<in>set F. vf lo \<le> vf e \<and> vf e \<le> vf hi) \<and>
            (\<forall>c\<in>set freqs. vf lo \<le> vf c \<and> vf c \<le> vf hi \<longrightarrow> c \<in> set F) \<and>
            subseq F freqs \<and>
            (\<forall>e\<in>set T. vt tlo \<le> vt e \<and> vt e \<le> vt thi) \<and>
            (\<forall>c\<in>set times_arr. vt tlo \<le> vt c \<and> vt c \<le> vt thi \<longrightarrow> c \<in> set T) \<and>
            subseq T times_arr"
proof -
  let ?F = "filter (\<lambda>c. vf lo \<le> vf c \<and> vf c \<le> vf hi) freqs"
  let ?T = "filter (\<lambda>c. vt tlo \<le> vt c \<and> vt c \<le> vt thi) times_arr"
  from assms(2) have nr: "nrows spg = length freqs" and nc: "ncols spg = length times_arr"
    by (simp_all add: spg_aligned_def)
  have spectrum: "\<exists>pe. trim_spectrum freqs power_spectra (lo, hi) = Inr (?F, pe)"
    if ex: "compared_exactly vf freqs lo hi"
  proof (cases power_spectra)
    case (Arr1 p)
    with assms(1) show ?thesis
      by (simp add: spectra_aligned_def trim_spectrum_Arr1 filter_in_range_exact [OF ex])
  next
    case (Arr2 a)
    with assms(1) show ?thesis
      by (simp add: spectra_aligned_def trim_spectrum_Arr2 filter_in_range_exact [OF ex])
  qed
  have f_only: "\<exists>se. trim_spectrogram freqs times_arr spg (Some (lo, hi)) None =
      Inr (?F, times_arr, se)"
    if ex: "compared_exactly vf freqs lo hi"
    by (simp add: trim_spectrogram_freq_only [OF nr] filter_in_range_exact [OF ex])
  have t_only: "\<exists>se. trim_spectrogram freqs times_arr spg None (Some (tlo, thi)) =
      Inr (freqs, ?T, se)"
    if ex: "compared_exactly vt times_arr tlo thi"
    by (simp add: trim_spectrogram_time_only [OF nc] filter_in_range_exact [OF ex])
  have both: "\<exists>se. trim_spectrogram freqs times_arr spg (Some (lo, hi)) (Some (tlo, thi)) =
      Inr (?F, ?T, se)"
    if "compared_exactly vf freqs lo hi \<and> compared_exactly vt times_arr tlo thi"
    using that
    by (simp add: trim_spectrogram_aligned [OF nr nc] filter_in_range_exact)
  have props: "(\<forall>e\<in>set ?F. vf lo \<le> vf e \<and> vf e \<le> vf hi) \<and>
      (\<forall>c\<in>set freqs. vf lo \<le> vf c \<and> vf c \<le> vf hi \<longrightarrow> c \<in> set ?F) \<and> subseq ?F freqs \<and>
      (\<forall>e\<in>set ?T. vt tlo \<le> vt e \<and> vt e \<le> vt thi) \<and>
      (\<forall>c\<in>set times_arr. vt tlo \<le> vt c \<and> vt c \<le> vt thi \<longrightarrow> c \<in> set ?T) \<and>
      subseq ?T times_arr"
    by simp
  from spectrum f_only t_only both props show ?thesis
    unfolding Let_def by blast
qed

theorem trim_selects_inclusive_range_witness:
  "spectra_aligned [IntVal 5, IntVal 6, IntVal 7, IntVal 8] (Arr1 [1, 2, 3, 4 :: int]) \<and>
   spg_aligned [IntVal 5, IntVal 6, IntVal 7, IntVal 8] [0, 1, 2 :: int]
     \<lparr>ncols = 3, rows = [[1, 2, 3], [4, 5, 6], [7, 8, 9], [10, 11, 12 :: int]]\<rparr> \<and>
   compared_exactly np_value [IntVal 5, IntVal 6, IntVal 7, IntVal 8] (FloatVal 6) (FloatVal (15 / 2)) \<and>
   compared_exactly id [0, 1, 2 :: int] 0 1 \<and>
   (\<exists>pe. trim_spectrum [IntVal 5, IntVal 6, IntVal 7, IntVal 8] (Arr1 [1, 2, 3, 4 :: int])
      (FloatVal 6, FloatVal (15 / 2)) = Inr ([IntVal 6, IntVal 7], pe)) \<and>
   (\<exists>se. trim_spectrogram [IntVal 5, IntVal 6, IntVal 7, IntVal 8] [0, 1, 2 :: int]
      \<lparr>ncols = 3, rows = [[1, 2, 3], [4, 5, 6], [7, 8, 9], [10, 11, 12 :: int]]\<rparr>
      (Some (FloatVal 6, FloatVal (15 / 2))) None = Inr ([IntVal 6, IntVal 7], [0, 1, 2], se)) \<and>
   (\<exists>se. trim_spectrogram [IntVal 5, IntVal 6, IntVal 7, IntVal 8] [0, 1, 2 :: int]
      \<lparr>ncols = 3, rows = [[1, 2, 3], [4, 5, 6], [7, 8, 9], [10, 11, 12 :: int]]\<rparr>
      None (Some (0, 1)) = Inr ([IntVal 5, IntVal 6, IntVal 7, IntVal 8], [0, 1], se)) \<and>
   (\<exists>se. trim_spectrogram [IntVal 5, IntVal 6, IntVal 7, IntVal 8] [0, 1, 2 :: int]
      \<lparr>ncols = 3, rows = [[1, 2, 3], [4, 5, 6], [7, 8, 9], [10, 11, 12 :: int]]\<rparr>
      (Some (FloatVal 6, FloatVal (15 / 2))) (Some (0, 1)) = Inr ([IntVal 6, IntVal 7], [0, 1], se))"
proof -
  let ?fs = "[IntVal 5, IntVal 6, IntVal 7, IntVal 8]"
  let ?spg = "\<lparr>ncols = 3, rows = [[1, 2, 3], [4, 5, 6], [7, 8, 9], [10, 11, 12 :: int]]\<rparr>"
  have a: "spectra_aligned ?fs (Arr1 [1, 2, 3, 4 :: int])"
    by (simp add: spectra_aligned_def)
  have b: "spg_aligned ?fs [0, 1, 2 :: int] ?spg"
    by (simp add: spg_aligned_def nrows_def wf_array2_def)
  have ef: "compared_exactly np_value ?fs (FloatVal 6) (FloatVal (15 / 2))"
    by (simp add: compared_exactly_def int_le_float float_le_int float64_of_int_small)
  have et: "compared_exactly id [0, 1, 2 :: int] 0 1"
    by (simp add: compared_exactly_def)
  have F: "filter (\<lambda>c. np_value (FloatVal 6) \<le> np_value c \<and> np_value c \<le> np_value (FloatVal (15 / 2))) ?fs =
      [IntVal 6, IntVal 7]"
    by simp
  have T: "filter (\<lambda>c. id (0 :: int) \<le> id c \<and> id c \<le> id 1) [0, 1, 2 :: int] = [0, 1]"
    by simp
  note t = trim_selects_inclusive_range [OF a b, where vf = np_value and vt = id
      and lo = "FloatVal 6" and hi = "FloatVal (15 / 2)" and tlo = 0 and thi = 1,
      unfolded Let_def F T]
  from t ef et a b show ?thesis by blast
qed

section \<open>C9: an empty selection is a result, not an error\<close>

lemma no_match_exact:
  assumes "compared_exactly v cs lo hi" and "v hi < v lo"
  shows "\<forall>c\<in>set cs. \<not> in_range lo hi c"
proof
  fix c assume "c \<in> set cs"
  with assms(1) have "in_range lo hi c = (v lo \<le> v c \<and> v c \<le> v hi)"
    by (simp add: compared_exactly_def in_range_def list_all_iff)
  with assms(2) show "\<not> in_range lo hi c" by auto
qed

lemma no_match_cases:
  assumes "(compared_exactly v cs lo hi \<and> v hi < v lo) \<or> (\<forall>c\<in>set cs. \<not> (lo \<le> c \<and> c \<le> hi))"
  shows "\<forall>c\<in>set cs. \<not> in_range lo hi c"
  using assms no_match_exact [of v cs lo hi] by (auto simp: in_range_def)

lemma select_no_match:
  assumes "\<forall>c\<in>set cs. \<not> in_range lo hi c"
  shows "select (range_mask cs lo hi) xs = []"
  unfolding range_mask_map using assms by (rule select_all_false)

lemma filter_no_match:
  assumes "\<forall>c\<in>set cs. \<not> in_range lo hi c"
  shows "filter (in_range lo hi) cs = []"
  using assms by (simp add: filter_empty_conv)

lemma map_select_no_match:
  assumes "\<forall>c\<in>set cs. \<not> in_range lo hi c"
  shows "map (select (range_mask cs lo hi)) rs = replicate (length rs) []"
  using assms by (induction rs) (simp_all add: select_no_match)

text \<open>
  C9, as stated, counts every pair of bounds with \<open>low > high\<close> among the ranges that match no
  frequency. It fails when the two comparisons are not made in one exact order: the int64
  frequency \<open>2^53 + 1\<close> is compared exactly with the integer lower bound \<open>2^53 + 1\<close> and,
  after conversion to the float64 \<open>2^53\<close>, with the float upper bound \<open>2^53\<close>; both
  comparisons hold, so \<^verbatim>\<open>trim_spectrum\<close> keeps it although the lower bound is above the
  upper bound.
\<close>

theorem empty_selection_is_valid_counterexample:
  "np_value (FloatVal 9007199254740992) < np_value (IntVal 9007199254740993) \<and>
   trim_spectrum [IntVal 9007199254740993] (Arr1 [1 :: int])
     (IntVal 9007199254740993, FloatVal 9007199254740992) =
     Inr ([IntVal 9007199254740993], Arr1 [1])"
  by (simp add: trim_spectrum_def Let_def bool_index_def range_mask_def logical_and_def
      select_def int_le_float int_le_int float64_of_int_tie)

text \<open>
  C9, amended. When no frequency lies in \<^verbatim>\<open>f_range\<close> as the code compares, which includes
  every range with \<open>low > high\<close> whose comparisons with the frequencies are exact (coordinates
  and bounds of one dtype, or a promotion that rounds none of them), \<^verbatim>\<open>trim_spectrum\<close> on
  aligned inputs raises nothing and returns an empty frequency array with an empty 1-D power
  array, or a 2-D power array of shape \<open>[n_spectra, 0]\<close>; \<^verbatim>\<open>trim_spectrogram\<close>, with
  \<^verbatim>\<open>t_range\<close> \<^verbatim>\<open>None\<close> or any range, returns an empty frequency array and a spectrogram with
  no rows. Likewise, when no time lies in \<^verbatim>\<open>t_range\<close>, \<^verbatim>\<open>trim_spectrogram\<close>, with \<^verbatim>\<open>f_range\<close>
  \<^verbatim>\<open>None\<close> or any range, returns an empty time array and a spectrogram whose rows are all
  empty.
\<close>

theorem empty_selection_is_valid:
  fixes vf :: "'a::ord \<Rightarrow> 'r::linorder" and vt :: "'b::ord \<Rightarrow> 's::linorder"
  shows
    "((compared_exactly vf freqs lo hi \<and> vf hi < vf lo) \<or>
      (\<forall>c\<in>set freqs. \<not> (lo \<le> c \<and> c \<le> hi)) \<longrightarrow>
        (length p = length freqs \<longrightarrow>
           trim_spectrum freqs (Arr1 p) (lo, hi) = Inr ([], Arr1 [])) \<and>
        (ncols a = length freqs \<longrightarrow>
           trim_spectrum freqs (Arr2 a) (lo, hi) =
             Inr ([], Arr2 \<lparr>ncols = 0, rows = replicate (nrows a) []\<rparr>)) \<and>
        (nrows spg = length freqs \<longrightarrow>
           trim_spectrogram freqs times_arr spg (Some (lo, hi)) None =
             Inr ([], times_arr, \<lparr>ncols = ncols spg, rows = []\<rparr>)) \<and>
        (nrows spg = length freqs \<and> ncols spg = length times_arr \<longrightarrow>
           trim_spectrogram freqs times_arr spg (Some (lo, hi)) (Some tr) =
             Inr ([], filter (\<lambda>c. fst tr \<le> c \<and> c \<le> snd tr) times_arr,
                  \<lparr>ncols = length (filter (\<lambda>c. fst tr \<le> c \<and> c \<le> snd tr) times_arr),
                   rows = []\<rparr>))) \<and>
     ((compared_exactly vt times_arr tlo thi \<and> vt thi < vt tlo) \<or>
      (\<forall>c\<in>set times_arr. \<not> (tlo \<le> c \<and> c \<le> thi)) \<longrightarrow>
        (ncols spg = length times_arr \<longrightarrow>
           trim_spectrogram freqs times_arr spg None (Some (tlo, thi)) =
             Inr (freqs, [], \<lparr>ncols = 0, rows = replicate (nrows spg) []\<rparr>)) \<and>
        (nrows spg = length freqs \<and> ncols spg = length times_arr \<longrightarrow>
           trim_spectrogram freqs times_arr spg (Some fr) (Some (tlo, thi)) =
             Inr (filter (\<lambda>c. fst fr \<le> c \<and> c \<le> snd fr) freqs, [],
                  \<lparr>ncols = 0,
                   rows = replicate (length (filter (\<lambda>c. fst fr \<le> c \<and> c \<le> snd fr) freqs)) []\<rparr>)))"
proof (intro conjI impI)
  assume h: "(compared_exactly vf freqs lo hi \<and> vf hi < vf lo) \<or>
      (\<forall>c\<in>set freqs. \<not> (lo \<le> c \<and> c \<le> hi))"
  then have f: "\<forall>c\<in>set freqs. \<not> in_range lo hi c" by (rule no_match_cases)
  {
    assume "length p = length freqs"
    then show "trim_spectrum freqs (Arr1 p) (lo, hi) = Inr ([], Arr1 [])"
      by (simp add: trim_spectrum_Arr1 filter_no_match [OF f] select_no_match [OF f])
  }
  {
    assume "ncols a = length freqs"
    then show "trim_spectrum freqs (Arr2 a) (lo, hi) =
        Inr ([], Arr2 \<lparr>ncols = 0, rows = replicate (nrows a) []\<rparr>)"
      by (simp add: trim_spectrum_Arr2 filter_no_match [OF f] map_select_no_match [OF f] nrows_def)
  }
  {
    assume "nrows spg = length freqs"
    then show "trim_spectrogram freqs times_arr spg (Some (lo, hi)) None =
        Inr ([], times_arr, \<lparr>ncols = ncols spg, rows = []\<rparr>)"
      by (simp add: trim_spectrogram_freq_only filter_no_match [OF f] select_no_match [OF f])
  }
  {
    assume a: "nrows spg = length freqs \<and> ncols spg = length times_arr"
    obtain l2 h2 where tr: "tr = (l2, h2)" by (cases tr)
    have r: "in_range l2 h2 = (\<lambda>c. l2 \<le> c \<and> c \<le> h2)"
      by (rule ext) (simp add: in_range_def)
    from a show "trim_spectrogram freqs times_arr spg (Some (lo, hi)) (Some tr) =
        Inr ([], filter (\<lambda>c. fst tr \<le> c \<and> c \<le> snd tr) times_arr,
             \<lparr>ncols = length (filter (\<lambda>c. fst tr \<le> c \<and> c \<le> snd tr) times_arr), rows = []\<rparr>)"
      unfolding tr
      by (simp add: trim_spectrogram_aligned filter_no_match [OF f] select_no_match [OF f] r)
  }
next
  assume h: "(compared_exactly vt times_arr tlo thi \<and> vt thi < vt tlo) \<or>
      (\<forall>c\<in>set times_arr. \<not> (tlo \<le> c \<and> c \<le> thi))"
  then have t: "\<forall>c\<in>set times_arr. \<not> in_range tlo thi c" by (rule no_match_cases)
  {
    assume "ncols spg = length times_arr"
    then show "trim_spectrogram freqs times_arr spg None (Some (tlo, thi)) =
        Inr (freqs, [], \<lparr>ncols = 0, rows = replicate (nrows spg) []\<rparr>)"
      by (simp add: trim_spectrogram_time_only filter_no_match [OF t] map_select_no_match [OF t]
          nrows_def)
  }
  {
    assume a: "nrows spg = length freqs \<and> ncols spg = length times_arr"
    obtain l2 h2 where fr: "fr = (l2, h2)" by (cases fr)
    have r: "in_range l2 h2 = (\<lambda>c. l2 \<le> c \<and> c \<le> h2)"
      by (rule ext) (simp add: in_range_def)
    have len: "length (select (range_mask freqs l2 h2) (rows spg)) = length (filter (in_range l2 h2) freqs)"
      using a by (intro length_select_range_mask) (simp add: nrows_def)
    from a show "trim_spectrogram freqs times_arr spg (Some fr) (Some (tlo, thi)) =
        Inr (filter (\<lambda>c. fst fr \<le> c \<and> c \<le> snd fr) freqs, [],
             \<lparr>ncols = 0,
              rows = replicate (length (filter (\<lambda>c. fst fr \<le> c \<and> c \<le> snd fr) freqs)) []\<rparr>)"
      unfolding fr
      by (simp add: trim_spectrogram_aligned filter_no_match [OF t] map_select_no_match [OF t]
          len r [symmetric])
  }
qed

theorem empty_selection_is_valid_witness:
  "compared_exactly id [5, 6, 7, 8 :: int] 8 6 \<and> id (6 :: int) < id 8 \<and>
   \<not> (\<exists>c\<in>set [0, 1, 2 :: int]. 10 \<le> c \<and> c \<le> 20) \<and>
   trim_spectrum [5, 6, 7, 8 :: int] (Arr1 [1, 2, 3, 4 :: int]) (8, 6) = Inr ([], Arr1 []) \<and>
   trim_spectrum [5, 6, 7, 8 :: int] (Arr2 \<lparr>ncols = 4, rows = [[1, 2, 3, 4], [10, 20, 30, 40 :: int]]\<rparr>)
     (8, 6) = Inr ([], Arr2 \<lparr>ncols = 0, rows = [[], []]\<rparr>) \<and>
   trim_spectrogram [5, 6, 7, 8 :: int] [0, 1, 2 :: int]
     \<lparr>ncols = 3, rows = [[1, 2, 3], [4, 5, 6], [7, 8, 9], [10, 11, 12 :: int]]\<rparr>
     (Some (8, 6)) None = Inr ([], [0, 1, 2], \<lparr>ncols = 3, rows = []\<rparr>) \<and>
   trim_spectrogram [5, 6, 7, 8 :: int] [0, 1, 2 :: int]
     \<lparr>ncols = 3, rows = [[1, 2, 3], [4, 5, 6], [7, 8, 9], [10, 11, 12 :: int]]\<rparr>
     (Some (8, 6)) (Some (0, 1)) = Inr ([], [0, 1], \<lparr>ncols = 2, rows = []\<rparr>) \<and>
   trim_spectrogram [5, 6, 7, 8 :: int] [0, 1, 2 :: int]
     \<lparr>ncols = 3, rows = [[1, 2, 3], [4, 5, 6], [7, 8, 9], [10, 11, 12 :: int]]\<rparr>
     None (Some (10, 20)) = Inr ([5, 6, 7, 8], [], \<lparr>ncols = 0, rows = [[], [], [], []]\<rparr>) \<and>
   trim_spectrogram [5, 6, 7, 8 :: int] [0, 1, 2 :: int]
     \<lparr>ncols = 3, rows = [[1, 2, 3], [4, 5, 6], [7, 8, 9], [10, 11, 12 :: int]]\<rparr>
     (Some (6, 8)) (Some (10, 20)) = Inr ([6, 7, 8], [], \<lparr>ncols = 0, rows = [[], [], []]\<rparr>)"
proof -
  let ?fs = "[5, 6, 7, 8 :: int]" and ?ts = "[0, 1, 2 :: int]"
  let ?spg = "\<lparr>ncols = 3, rows = [[1, 2, 3], [4, 5, 6], [7, 8, 9], [10, 11, 12 :: int]]\<rparr>"
  let ?a = "\<lparr>ncols = 4, rows = [[1, 2, 3, 4], [10, 20, 30, 40 :: int]]\<rparr>"
  have e: "compared_exactly id ?fs 8 6" by (simp add: compared_exactly_def)
  have i: "id (6 :: int) < id 8" by simp
  have n: "\<not> (\<exists>c\<in>set ?ts. 10 \<le> c \<and> c \<le> 20)" by simp
  have hf: "(compared_exactly id ?fs 8 6 \<and> id (6 :: int) < id 8) \<or>
      (\<forall>c\<in>set ?fs. \<not> (8 \<le> c \<and> c \<le> 6))"
    using e i by blast
  have ht: "(compared_exactly id ?ts 10 20 \<and> id (20 :: int) < id 10) \<or>
      (\<forall>c\<in>set ?ts. \<not> (10 \<le> c \<and> c \<le> 20))"
    using n by blast
  note t = empty_selection_is_valid [where vf = id and vt = id and freqs = ?fs and lo = 8
      and hi = 6 and times_arr = ?ts and tlo = 10 and thi = 20 and p = "[1, 2, 3, 4 :: int]"
      and a = ?a and spg = ?spg and tr = "(0, 1)" and fr = "(6, 8)"]
  note f_part = t [THEN conjunct1, THEN mp, OF hf]
  note t_part = t [THEN conjunct2, THEN mp, OF ht]
  from f_part t_part e i n show ?thesis
    by (simp add: nrows_def numeral_eq_Suc)
qed

end
